theory Spec2Isabelle
  imports Main "HOL-Library.AList" "HOL-Library.Extended_Nat" "HOL-Library.Monad_Syntax"
begin

section \<open>Data model (shared/schema.ts)\<close>

text \<open>
  The four entities of the job board.  Each \<open>Insert...\<close> record is the payload a create
  operation receives; the stored entity is that payload extended by the numeric id, which
  is what the object spread \<^verbatim>\<open>{ ...user, id }\<close> builds.  Nullable text columns are
  \<open>string option\<close>; timestamps are milliseconds since the epoch (what \<^verbatim>\<open>getTime()\<close>
  reads); numbers are integers, the ids the store assigns and its counters natural
  numbers (JavaScript numbers are exact on the integers this store can hold).
\<close>

record InsertUser =
  username :: string
  password :: string
  user_email :: string
  userType :: string
  companyName :: "string option"
  user_location :: "string option"
  bio :: "string option"

record User = InsertUser +
  user_id :: nat

record InsertJob =
  title :: string
  company :: string
  job_location :: string
  description :: string
  requirements :: string
  salary :: "string option"
  jobType :: string
  category :: string
  experienceLevel :: string
  skills :: "string list"
  postedDate :: int
  employerId :: int

record Job = InsertJob +
  job_id :: nat

record InsertApplication =
  jobId :: int
  userId :: int
  application_name :: string
  application_email :: string
  phone :: string
  resume :: string
  coverLetter :: "string option"
  status :: string
  appliedDate :: int

record Application = InsertApplication +
  application_id :: nat

record InsertCategory =
  category_name :: string
  icon :: string
  jobCount :: int

record Category = InsertCategory +
  category_id :: nat

section \<open>The in-memory store (MemStorage)\<close>

text \<open>
  A JavaScript \<^verbatim>\<open>Map\<close> iterates in insertion order and \<^verbatim>\<open>set\<close> on a key that is
  already present keeps the key's position.  It is modelled as an association list:
  \<open>Map_set\<close> replaces in place or appends, \<open>Map_get\<close> looks a key up (\<open>None\<close> is
  \<^verbatim>\<open>undefined\<close>), \<open>Map_values\<close> lists the values in insertion order.
\<close>

type_synonym 'v js_map = "(nat \<times> 'v) list"

definition Map_get :: "'v js_map \<Rightarrow> nat \<Rightarrow> 'v option" where
  "Map_get m k = map_of m k"

definition Map_set :: "nat \<Rightarrow> 'v \<Rightarrow> 'v js_map \<Rightarrow> 'v js_map" where
  "Map_set k v m = AList.update k v m"

definition Map_values :: "'v js_map \<Rightarrow> 'v list" where
  "Map_values m = map snd m"

definition Map_keys :: "'v js_map \<Rightarrow> nat list" where
  "Map_keys m = map fst m"

record MemStorage =
  users :: "User js_map"
  jobs :: "Job js_map"
  applications :: "Application js_map"
  categories :: "Category js_map"
  userIdCounter :: nat
  jobIdCounter :: nat
  applicationIdCounter :: nat
  categoryIdCounter :: nat

text \<open>
  Every method is a function from the store to its result and the store afterwards.  The
  methods are \<^verbatim>\<open>async\<close> but contain no \<^verbatim>\<open>await\<close>, so each body runs to its end at
  the call.
\<close>

subsection \<open>Users\<close>

definition getUser :: "nat \<Rightarrow> MemStorage \<Rightarrow> User option" where
  "getUser i s = Map_get (users s) i"

definition getUserByUsername :: "string \<Rightarrow> MemStorage \<Rightarrow> User option" where
  "getUserByUsername name s = find (\<lambda>user. username user = name) (Map_values (users s))"

definition createUser :: "InsertUser \<Rightarrow> MemStorage \<Rightarrow> User \<times> MemStorage" where
  "createUser user s =
     (let i = userIdCounter s;
          s1 = s\<lparr>userIdCounter := i + 1\<rparr>;
          newUser = InsertUser.extend user (User.fields i)
      in (newUser, s1\<lparr>users := Map_set i newUser (users s1)\<rparr>))"

subsection \<open>Categories\<close>

definition getCategories :: "MemStorage \<Rightarrow> Category list" where
  "getCategories s = Map_values (categories s)"

definition getCategory :: "nat \<Rightarrow> MemStorage \<Rightarrow> Category option" where
  "getCategory i s = Map_get (categories s) i"

definition createCategory :: "InsertCategory \<Rightarrow> MemStorage \<Rightarrow> Category \<times> MemStorage" where
  "createCategory cat s =
     (let i = categoryIdCounter s;
          s1 = s\<lparr>categoryIdCounter := i + 1\<rparr>;
          newCategory = InsertCategory.extend cat (Category.fields i)
      in (newCategory, s1\<lparr>categories := Map_set i newCategory (categories s1)\<rparr>))"

definition incrementCategoryJobCount :: "nat \<Rightarrow> MemStorage \<Rightarrow> Category option \<times> MemStorage" where
  "incrementCategoryJobCount i s =
     (case Map_get (categories s) i of
        None \<Rightarrow> (None, s)
      | Some cat \<Rightarrow>
          (let updatedCategory = cat\<lparr>jobCount := jobCount cat + 1\<rparr>
           in (Some updatedCategory,
               s\<lparr>categories := Map_set i updatedCategory (categories s)\<rparr>)))"

subsection \<open>Jobs\<close>

definition getJob :: "nat \<Rightarrow> MemStorage \<Rightarrow> Job option" where
  "getJob i s = Map_get (jobs s) i"

definition getJobsByEmployer :: "int \<Rightarrow> MemStorage \<Rightarrow> Job list" where
  "getJobsByEmployer eid s = filter (\<lambda>job. employerId job = eid) (Map_values (jobs s))"

definition createJob :: "InsertJob \<Rightarrow> MemStorage \<Rightarrow> Job \<times> MemStorage" where
  "createJob job s =
     (let i = jobIdCounter s;
          s1 = s\<lparr>jobIdCounter := i + 1\<rparr>;
          newJob = InsertJob.extend job (Job.fields i);
          s2 = s1\<lparr>jobs := Map_set i newJob (jobs s1)\<rparr>
      in case find (\<lambda>cat. category_name cat = category job) (Map_values (categories s2)) of
           None \<Rightarrow> (newJob, s2)
         | Some cat \<Rightarrow> (newJob, snd (incrementCategoryJobCount (category_id cat) s2)))"

subsection \<open>Applications\<close>

definition getApplicationsByJob :: "int \<Rightarrow> MemStorage \<Rightarrow> Application list" where
  "getApplicationsByJob jid s =
     filter (\<lambda>application. jobId application = jid) (Map_values (applications s))"

definition getApplicationsByUser :: "int \<Rightarrow> MemStorage \<Rightarrow> Application list" where
  "getApplicationsByUser uid s =
     filter (\<lambda>application. userId application = uid) (Map_values (applications s))"

definition createApplication ::
  "InsertApplication \<Rightarrow> MemStorage \<Rightarrow> Application \<times> MemStorage" where
  "createApplication application s =
     (let i = applicationIdCounter s;
          s1 = s\<lparr>applicationIdCounter := i + 1\<rparr>;
          newApplication = InsertApplication.extend application (Application.fields i)
      in (newApplication,
          s1\<lparr>applications := Map_set i newApplication (applications s1)\<rparr>))"

definition updateApplicationStatus ::
  "nat \<Rightarrow> string \<Rightarrow> MemStorage \<Rightarrow> Application option \<times> MemStorage" where
  "updateApplicationStatus i st s =
     (case Map_get (applications s) i of
        None \<Rightarrow> (None, s)
      | Some application \<Rightarrow>
          (let updatedApplication = application\<lparr>status := st\<rparr>
           in (Some updatedApplication,
               s\<lparr>applications := Map_set i updatedApplication (applications s)\<rparr>)))"

subsection \<open>Construction and seeding\<close>

definition defaultCategories :: "InsertCategory list" where
  "defaultCategories =
     [\<lparr>category_name = ''Technology'', icon = ''fa-laptop-code'', jobCount = 1245\<rparr>,
      \<lparr>category_name = ''Business'', icon = ''fa-chart-line'', jobCount = 879\<rparr>,
      \<lparr>category_name = ''Design'', icon = ''fa-paint-brush'', jobCount = 623\<rparr>,
      \<lparr>category_name = ''Marketing'', icon = ''fa-bullhorn'', jobCount = 542\<rparr>,
      \<lparr>category_name = ''Healthcare'', icon = ''fa-heartbeat'', jobCount = 1032\<rparr>,
      \<lparr>category_name = ''Education'', icon = ''fa-graduation-cap'', jobCount = 478\<rparr>,
      \<lparr>category_name = ''Legal'', icon = ''fa-gavel'', jobCount = 326\<rparr>,
      \<lparr>category_name = ''Hospitality'', icon = ''fa-utensils'', jobCount = 587\<rparr>]"

definition emptyStorage :: MemStorage where
  "emptyStorage =
     \<lparr>users = [], jobs = [], applications = [], categories = [],
      userIdCounter = 1, jobIdCounter = 1, applicationIdCounter = 1, categoryIdCounter = 1\<rparr>"

definition initializeCategories :: "MemStorage \<Rightarrow> MemStorage" where
  "initializeCategories s = foldl (\<lambda>s' cat. snd (createCategory cat s')) s defaultCategories"

definition newMemStorage :: MemStorage where
  "newMemStorage = initializeCategories emptyStorage"

section \<open>Job search (MemStorage.getJobs)\<close>

text \<open>
  The filter object of \<^verbatim>\<open>getJobs\<close>: every field is optional (\<open>None\<close> is
  \<^verbatim>\<open>undefined\<close>).
\<close>

record JobFilters =
  search :: "string option"
  filter_location :: "string option"
  filter_category :: "string option"
  filter_jobType :: "string list option"
  filter_experienceLevel :: "string list option"
  datePosted :: "string option"
  salaryRange :: "string option"

text \<open>
  What the JavaScript runtime supplies to \<^verbatim>\<open>getJobs\<close>; none of it is code of the
  repository, so it is a parameter of the model.  \<open>toLowerCase\<close> is
  \<^verbatim>\<open>String.prototype.toLowerCase\<close>, the lower-casing of the language over all of
  Unicode.  \<open>daysAgo n\<close> is the time the source computes with
  \<^verbatim>\<open>jobDate.setDate(now.getDate() - n)\<close>: the current time moved back by \<open>n\<close>
  calendar days.  \<open>largeNumber ds\<close> is the number \<^verbatim>\<open>parseInt\<close> returns on a string
  \<open>ds\<close> of decimal digits whose value lies above \<open>2^53\<close>: the IEEE double the
  implementation rounds to, which may be \<^verbatim>\<open>Infinity\<close>.
\<close>

record Runtime =
  toLowerCase :: "string \<Rightarrow> string"
  daysAgo :: "nat \<Rightarrow> int"
  largeNumber :: "string \<Rightarrow> enat"

text \<open>
  \<open>String_includes str t\<close> is \<^verbatim>\<open>str.includes(t)\<close>: \<open>t\<close> occurs in \<open>str\<close> at some
  position.
\<close>

fun String_includes :: "string \<Rightarrow> string \<Rightarrow> bool" where
  "String_includes [] t = (t = [])"
| "String_includes (c # cs) t = (take (length t) (c # cs) = t \<or> String_includes cs t)"

text \<open>
  Numbers in salary texts.  \<open>isDigit\<close> is the regular expression class \<^verbatim>\<open>\d\<close>.
  \<open>parseInt\<close> is applied to strings of decimal digits only.  On the empty string it
  gives \<^verbatim>\<open>NaN\<close> (\<open>None\<close>).  Otherwise it gives a number: the decimal value itself
  when that is at most \<open>2^53 = 9007199254740992\<close>, which a double holds exactly, and the
  runtime's rounding of it above.  \<open>geNumber\<close> is \<^verbatim>\<open>>=\<close> on numbers, false as soon as
  one side is \<^verbatim>\<open>NaN\<close>.
\<close>

definition isDigit :: "char \<Rightarrow> bool" where
  "isDigit c \<longleftrightarrow> c \<in> set ''0123456789''"

definition digitValue :: "char \<Rightarrow> nat" where
  "digitValue c = of_char c - 48"

definition decimal :: "string \<Rightarrow> nat" where
  "decimal ds = foldl (\<lambda>n c. 10 * n + digitValue c) 0 ds"

definition parseInt :: "Runtime \<Rightarrow> string \<Rightarrow> enat option" where
  "parseInt rt str =
     (let ds = takeWhile isDigit str
      in if ds = [] then None
         else if decimal ds \<le> 9007199254740992 then Some (enat (decimal ds))
         else Some (largeNumber rt ds))"

text \<open>
  The regular expression \<^verbatim>\<open>/\$(\d{1,3}(,\d{3})*)/\<close>.  \<open>matchGroups\<close> is the greedy
  \<^verbatim>\<open>(,\d{3})*\<close> at the start of its argument, \<open>matchAmount\<close> is
  \<^verbatim>\<open>\d{1,3}(,\d{3})*\<close> at the start of its argument (nothing has to follow the
  groups, so the greedy choices are final), and \<open>matchSalary\<close> finds the leftmost dollar
  sign where the amount matches and returns the capture group 1.
\<close>

fun matchGroups :: "string \<Rightarrow> string" where
  "matchGroups (c # d1 # d2 # d3 # rest) =
     (if c = CHR '','' \<and> isDigit d1 \<and> isDigit d2 \<and> isDigit d3
      then c # d1 # d2 # d3 # matchGroups rest else [])"
| "matchGroups _ = []"

definition matchAmount :: "string \<Rightarrow> string option" where
  "matchAmount str =
     (let ds = take 3 (takeWhile isDigit str)
      in if ds = [] then None else Some (ds @ matchGroups (drop (length ds) str)))"

fun matchSalary :: "string \<Rightarrow> string option" where
  "matchSalary [] = None"
| "matchSalary (c # cs) =
     (if c = CHR ''$'' then (case matchAmount cs of Some m \<Rightarrow> Some m | None \<Rightarrow> matchSalary cs)
      else matchSalary cs)"

definition geNumber :: "enat option \<Rightarrow> enat option \<Rightarrow> bool" where
  "geNumber a b = (case (a, b) of (Some x, Some y) \<Rightarrow> x \<ge> y | _ \<Rightarrow> False)"

text \<open>
  The callback of the salary filter: \<^verbatim>\<open>!job.salary\<close> holds for a missing and for
  an empty salary.
\<close>

definition salaryAtLeast :: "Runtime \<Rightarrow> enat option \<Rightarrow> Job \<Rightarrow> bool" where
  "salaryAtLeast rt minSalary job =
     (case salary job of
        None \<Rightarrow> False
      | Some sal \<Rightarrow>
          if sal = [] then False
          else (case matchSalary sal of
                  None \<Rightarrow> False
                | Some m1 \<Rightarrow>
                    (let jobMinSalary = parseInt rt (filter (\<lambda>c. c \<noteq> CHR '','') m1)
                     in geNumber jobMinSalary minSalary)))"

text \<open>
  The seven filter blocks of \<^verbatim>\<open>getJobs\<close>, in the order of the source.  A string
  filter is applied when it is truthy, that is present and not empty; a list filter when
  it is present and has an element.
\<close>

definition filterBySearch :: "Runtime \<Rightarrow> JobFilters \<Rightarrow> Job list \<Rightarrow> Job list" where
  "filterBySearch rt filters js =
     (case search filters of
        None \<Rightarrow> js
      | Some t \<Rightarrow>
          if t = [] then js
          else (let searchTerm = toLowerCase rt t
                in filter (\<lambda>job. String_includes (toLowerCase rt (title job)) searchTerm \<or>
                                 String_includes (toLowerCase rt (company job)) searchTerm \<or>
                                 String_includes (toLowerCase rt (description job)) searchTerm)
                     js))"

definition filterByLocation :: "Runtime \<Rightarrow> JobFilters \<Rightarrow> Job list \<Rightarrow> Job list" where
  "filterByLocation rt filters js =
     (case filter_location filters of
        None \<Rightarrow> js
      | Some loc \<Rightarrow>
          if loc = [] then js
          else (let locationTerm = toLowerCase rt loc
                in filter (\<lambda>job. String_includes (toLowerCase rt (job_location job)) locationTerm)
                     js))"

definition filterByCategory :: "JobFilters \<Rightarrow> Job list \<Rightarrow> Job list" where
  "filterByCategory filters js =
     (case filter_category filters of
        None \<Rightarrow> js
      | Some cat \<Rightarrow> if cat = [] then js else filter (\<lambda>job. category job = cat) js)"

definition filterByJobType :: "JobFilters \<Rightarrow> Job list \<Rightarrow> Job list" where
  "filterByJobType filters js =
     (case filter_jobType filters of
        None \<Rightarrow> js
      | Some types \<Rightarrow>
          if length types > 0 then filter (\<lambda>job. jobType job \<in> set types) js else js)"

definition filterByExperienceLevel :: "JobFilters \<Rightarrow> Job list \<Rightarrow> Job list" where
  "filterByExperienceLevel filters js =
     (case filter_experienceLevel filters of
        None \<Rightarrow> js
      | Some levels \<Rightarrow>
          if length levels > 0 then filter (\<lambda>job. experienceLevel job \<in> set levels) js
          else js)"

definition filterByDatePosted :: "Runtime \<Rightarrow> JobFilters \<Rightarrow> Job list \<Rightarrow> Job list" where
  "filterByDatePosted rt filters js =
     (case datePosted filters of
        None \<Rightarrow> js
      | Some d \<Rightarrow>
          if d = [] then js
          else if d = ''last24h'' then filter (\<lambda>job. postedDate job \<ge> daysAgo rt 1) js
          else if d = ''last3d'' then filter (\<lambda>job. postedDate job \<ge> daysAgo rt 3) js
          else if d = ''last7d'' then filter (\<lambda>job. postedDate job \<ge> daysAgo rt 7) js
          else if d = ''last14d'' then filter (\<lambda>job. postedDate job \<ge> daysAgo rt 14) js
          else js)"

definition filterBySalaryRange :: "Runtime \<Rightarrow> JobFilters \<Rightarrow> Job list \<Rightarrow> Job list" where
  "filterBySalaryRange rt filters js =
     (case salaryRange filters of
        None \<Rightarrow> js
      | Some rng \<Rightarrow>
          if rng = [] then js
          else (let minSalary = parseInt rt (filter isDigit rng)
                in filter (salaryAtLeast rt minSalary) js))"

text \<open>
  \<^verbatim>\<open>Array.prototype.sort\<close> is a stable sort by the comparator: an element stays
  before the later elements that the comparator does not put in front of it.
\<close>

fun insertSorted :: "('a \<Rightarrow> 'a \<Rightarrow> int) \<Rightarrow> 'a \<Rightarrow> 'a list \<Rightarrow> 'a list" where
  "insertSorted cmp x [] = [x]"
| "insertSorted cmp x (y # ys) =
     (if cmp x y \<le> 0 then x # y # ys else y # insertSorted cmp x ys)"

definition Array_sort :: "('a \<Rightarrow> 'a \<Rightarrow> int) \<Rightarrow> 'a list \<Rightarrow> 'a list" where
  "Array_sort cmp xs = foldr (insertSorted cmp) xs []"

definition getJobs :: "Runtime \<Rightarrow> JobFilters option \<Rightarrow> MemStorage \<Rightarrow> Job list" where
  "getJobs rt filters s =
     (let js = Map_values (jobs s);
          js' = (case filters of
                   None \<Rightarrow> js
                 | Some f \<Rightarrow>
                     filterBySalaryRange rt f
                       (filterByDatePosted rt f
                         (filterByExperienceLevel f
                           (filterByJobType f
                             (filterByCategory f
                               (filterByLocation rt f
                                 (filterBySearch rt f js)))))))
      in Array_sort (\<lambda>a b. postedDate b - postedDate a) js')"

section \<open>Request handlers (registerRoutes)\<close>

text \<open>
  Request bodies and their validation.  \<^verbatim>\<open>shared/schema.ts\<close> derives each insert
  schema from its table with \<^verbatim>\<open>createInsertSchema\<close> of drizzle-zod: a column
  declared \<^verbatim>\<open>notNull()\<close> with no default gives a required field, a nullable column
  gives a field that may be left out or be null.  A body is modelled by what it holds for
  each field of the schema: nothing (\<open>Missing\<close>), a value the field's type rejects
  (\<open>Wrong\<close>) or a value of the field's type (\<open>Given\<close>).  \<open>required\<close> and \<open>nullable\<close>
  check one field; the three \<open>parse\<close> functions return the typed payload, and \<open>None\<close>
  where \<^verbatim>\<open>parse\<close> throws the \<^verbatim>\<open>ZodError\<close>.
\<close>

datatype 'a field = Missing | Wrong | Given 'a

definition required :: "'a field \<Rightarrow> 'a option" where
  "required f = (case f of Given v \<Rightarrow> Some v | _ \<Rightarrow> None)"

definition nullable :: "'a option field \<Rightarrow> 'a option option" where
  "nullable f = (case f of Missing \<Rightarrow> Some None | Given v \<Rightarrow> Some v | Wrong \<Rightarrow> None)"

record UserBody =
  body_username :: "string field"
  body_password :: "string field"
  body_email :: "string field"
  body_userType :: "string field"
  body_companyName :: "string option field"
  body_location :: "string option field"
  body_bio :: "string option field"

record JobBody =
  body_title :: "string field"
  body_company :: "string field"
  body_job_location :: "string field"
  body_description :: "string field"
  body_requirements :: "string field"
  body_salary :: "string option field"
  body_jobType :: "string field"
  body_category :: "string field"
  body_experienceLevel :: "string field"
  body_skills :: "string list field"
  body_postedDate :: "int field"
  body_employerId :: "int field"

record ApplicationBody =
  body_jobId :: "int field"
  body_userId :: "int field"
  body_name :: "string field"
  body_application_email :: "string field"
  body_phone :: "string field"
  body_resume :: "string field"
  body_coverLetter :: "string option field"
  body_status :: "string field"
  body_appliedDate :: "int field"

text \<open>
  \<^verbatim>\<open>users\<close>: username, password, email and userType are \<^verbatim>\<open>notNull()\<close>;
  companyName, location and bio are nullable.
\<close>

definition insertUserSchema_parse :: "UserBody \<Rightarrow> InsertUser option" where
  "insertUserSchema_parse b =
     do {
       u \<leftarrow> required (body_username b);
       p \<leftarrow> required (body_password b);
       e \<leftarrow> required (body_email b);
       t \<leftarrow> required (body_userType b);
       c \<leftarrow> nullable (body_companyName b);
       l \<leftarrow> nullable (body_location b);
       bi \<leftarrow> nullable (body_bio b);
       Some \<lparr>username = u, password = p, user_email = e, userType = t, companyName = c,
             user_location = l, bio = bi\<rparr>
     }"

text \<open>
  \<^verbatim>\<open>jobs\<close>: every column but salary is \<^verbatim>\<open>notNull()\<close>, postedDate included, and
  none has a default.
\<close>

definition insertJobSchema_parse :: "JobBody \<Rightarrow> InsertJob option" where
  "insertJobSchema_parse b =
     do {
       t \<leftarrow> required (body_title b);
       c \<leftarrow> required (body_company b);
       l \<leftarrow> required (body_job_location b);
       d \<leftarrow> required (body_description b);
       r \<leftarrow> required (body_requirements b);
       sal \<leftarrow> nullable (body_salary b);
       jt \<leftarrow> required (body_jobType b);
       cat \<leftarrow> required (body_category b);
       el \<leftarrow> required (body_experienceLevel b);
       sk \<leftarrow> required (body_skills b);
       pd \<leftarrow> required (body_postedDate b);
       eid \<leftarrow> required (body_employerId b);
       Some \<lparr>title = t, company = c, job_location = l, description = d, requirements = r,
             salary = sal, jobType = jt, category = cat, experienceLevel = el, skills = sk,
             postedDate = pd, employerId = eid\<rparr>
     }"

text \<open>
  \<^verbatim>\<open>applications\<close>: every column but coverLetter is \<^verbatim>\<open>notNull()\<close>, status and
  appliedDate included, and none has a default.
\<close>

definition insertApplicationSchema_parse :: "ApplicationBody \<Rightarrow> InsertApplication option" where
  "insertApplicationSchema_parse b =
     do {
       j \<leftarrow> required (body_jobId b);
       u \<leftarrow> required (body_userId b);
       n \<leftarrow> required (body_name b);
       e \<leftarrow> required (body_application_email b);
       p \<leftarrow> required (body_phone b);
       r \<leftarrow> required (body_resume b);
       cl \<leftarrow> nullable (body_coverLetter b);
       st \<leftarrow> required (body_status b);
       ad \<leftarrow> required (body_appliedDate b);
       Some \<lparr>jobId = j, userId = u, application_name = n, application_email = e, phone = p,
             resume = r, coverLetter = cl, status = st, appliedDate = ad\<rparr>
     }"

text \<open>
  A response is a status code with a JSON record, a status code with a message, or the
  400 answer that carries the text of the validation error.  The handlers catch every
  other exception as a 500; the store operations they call throw none.
\<close>

datatype 'a Response = Json nat 'a | Message nat string | ValidationError nat

text \<open>A \<^verbatim>\<open>Date\<close> object is truthy whatever time it holds.\<close>

definition Date_truthy :: "int \<Rightarrow> bool" where
  "Date_truthy d = True"

text \<open>
  The three POST handlers.  \<open>now\<close> is the time \<^verbatim>\<open>new Date()\<close> reads.  The status
  of an application is a string, which is falsy exactly when it is empty.
\<close>

definition post_api_users :: "UserBody \<Rightarrow> MemStorage \<Rightarrow> User Response \<times> MemStorage" where
  "post_api_users body s =
     (case insertUserSchema_parse body of
        None \<Rightarrow> (ValidationError 400, s)
      | Some userData \<Rightarrow>
          (case getUserByUsername (username userData) s of
             Some existingUser \<Rightarrow> (Message 400 ''Username already exists'', s)
           | None \<Rightarrow>
               (case createUser userData s of (newUser, s') \<Rightarrow> (Json 201 newUser, s'))))"

definition post_api_jobs :: "int \<Rightarrow> JobBody \<Rightarrow> MemStorage \<Rightarrow> Job Response \<times> MemStorage" where
  "post_api_jobs now body s =
     (case insertJobSchema_parse body of
        None \<Rightarrow> (ValidationError 400, s)
      | Some jobData \<Rightarrow>
          (let jobData1 = (if \<not> Date_truthy (postedDate jobData)
                           then jobData\<lparr>postedDate := now\<rparr> else jobData)
           in case createJob jobData1 s of (newJob, s') \<Rightarrow> (Json 201 newJob, s')))"

definition post_api_applications ::
  "int \<Rightarrow> ApplicationBody \<Rightarrow> MemStorage \<Rightarrow> Application Response \<times> MemStorage" where
  "post_api_applications now body s =
     (case insertApplicationSchema_parse body of
        None \<Rightarrow> (ValidationError 400, s)
      | Some applicationData \<Rightarrow>
          (let applicationData1 = (if status applicationData = []
                                   then applicationData\<lparr>status := ''applied''\<rparr>
                                   else applicationData);
               applicationData2 = (if \<not> Date_truthy (appliedDate applicationData1)
                                   then applicationData1\<lparr>appliedDate := now\<rparr>
                                   else applicationData1)
           in case createApplication applicationData2 s of
                (newApplication, s') \<Rightarrow> (Json 201 newApplication, s')))"

text \<open>A sequence of POST /api/users requests, served one after the other.\<close>

fun serve_users :: "UserBody list \<Rightarrow> MemStorage \<Rightarrow> User Response list \<times> MemStorage" where
  "serve_users [] s = ([], s)"
| "serve_users (body # bodies) s =
     (case post_api_users body s of
        (r, s') \<Rightarrow> (case serve_users bodies s' of (rs, s'') \<Rightarrow> (r # rs, s'')))"

section \<open>Store histories\<close>

text \<open>
  The operations of the store that change it.  The lookups and queries return a value and
  leave the store as it is, so a history of the store is a list of these operations,
  applied to the store the constructor builds.  A store is reachable when some history
  produces it.
\<close>

datatype operation =
    CreateUser InsertUser
  | CreateJob InsertJob
  | CreateApplication InsertApplication
  | CreateCategory InsertCategory
  | UpdateApplicationStatus nat string
  | IncrementCategoryJobCount nat

fun exec :: "operation \<Rightarrow> MemStorage \<Rightarrow> MemStorage" where
  "exec (CreateUser user) s = snd (createUser user s)"
| "exec (CreateJob job) s = snd (createJob job s)"
| "exec (CreateApplication application) s = snd (createApplication application s)"
| "exec (CreateCategory cat) s = snd (createCategory cat s)"
| "exec (UpdateApplicationStatus i st) s = snd (updateApplicationStatus i st s)"
| "exec (IncrementCategoryJobCount i) s = snd (incrementCategoryJobCount i s)"

definition run :: "operation list \<Rightarrow> MemStorage \<Rightarrow> MemStorage" where
  "run ops s = foldl (\<lambda>s' op. exec op s') s ops"

inductive reachable :: "MemStorage \<Rightarrow> bool" where
  init: "reachable newMemStorage"
| step: "reachable s \<Longrightarrow> reachable (exec op s)"

section \<open>Invariants of the store\<close>

text \<open>
  \<open>ids_from_one m n\<close>: the keys of \<open>m\<close>, in insertion order, are \<open>1, 2, ..., n - 1\<close>,
  where \<open>n\<close> is the next id of the collection.  \<open>keyed_by f m\<close>: every record is stored
  under the id it carries.
\<close>

definition ids_from_one :: "'v js_map \<Rightarrow> nat \<Rightarrow> bool" where
  "ids_from_one m n \<longleftrightarrow> 1 \<le> n \<and> Map_keys m = [1..<n]"

definition keyed_by :: "('v \<Rightarrow> nat) \<Rightarrow> 'v js_map \<Rightarrow> bool" where
  "keyed_by f m \<longleftrightarrow> (\<forall>(k, v) \<in> set m. f v = k)"

definition store_inv :: "MemStorage \<Rightarrow> bool" where
  "store_inv s \<longleftrightarrow>
     ids_from_one (users s) (userIdCounter s) \<and> keyed_by user_id (users s) \<and>
     ids_from_one (jobs s) (jobIdCounter s) \<and> keyed_by job_id (jobs s) \<and>
     ids_from_one (applications s) (applicationIdCounter s) \<and>
     keyed_by application_id (applications s) \<and>
     ids_from_one (categories s) (categoryIdCounter s) \<and>
     keyed_by category_id (categories s)"

text \<open>
  What a later store keeps of an earlier one.  A user and a job never change.  An
  application changes in its status only and a category in its jobCount only:
  \<open>same_application a a'\<close> and \<open>same_category c c'\<close> say that the later record is the
  earlier one up to that field.  \<open>ids_kept s s'\<close>: every id that holds a record in \<open>s\<close>
  holds the same record in \<open>s'\<close>.
\<close>

definition same_application :: "Application \<Rightarrow> Application \<Rightarrow> bool" where
  "same_application a a' \<longleftrightarrow> a'\<lparr>status := status a\<rparr> = a"

definition same_category :: "Category \<Rightarrow> Category \<Rightarrow> bool" where
  "same_category c c' \<longleftrightarrow> c'\<lparr>jobCount := jobCount c\<rparr> = c"

definition kept :: "('v \<Rightarrow> 'v \<Rightarrow> bool) \<Rightarrow> 'v js_map \<Rightarrow> 'v js_map \<Rightarrow> bool" where
  "kept same m m' \<longleftrightarrow>
     (\<forall>k v. Map_get m k = Some v \<longrightarrow> (\<exists>v'. Map_get m' k = Some v' \<and> same v v'))"

definition ids_kept :: "MemStorage \<Rightarrow> MemStorage \<Rightarrow> bool" where
  "ids_kept s s' \<longleftrightarrow>
     kept (=) (users s) (users s') \<and>
     kept (=) (jobs s) (jobs s') \<and>
     kept same_application (applications s) (applications s') \<and>
     kept same_category (categories s) (categories s')"

text \<open>
  \<open>first_match s name k\<close>: the category stored under id \<open>k\<close> bears the name, and no
  category with a smaller id does.
\<close>

definition first_match :: "MemStorage \<Rightarrow> string \<Rightarrow> nat \<Rightarrow> bool" where
  "first_match s name k \<longleftrightarrow>
     (case getCategory k s of None \<Rightarrow> False | Some c \<Rightarrow> category_name c = name) \<and>
     (\<forall>k' < k. case getCategory k' s of None \<Rightarrow> True | Some c' \<Rightarrow> category_name c' \<noteq> name)"

section \<open>Sample data\<close>

text \<open>Concrete records, stores and request bodies at which the theorems are instantiated.\<close>

definition sampleApplication :: Application where
  "sampleApplication =
     \<lparr>jobId = 1, userId = 1, application_name = ''Ada'', application_email = ''ada@example.org'',
      phone = ''555'', resume = ''cv.pdf'', coverLetter = None, status = ''applied'',
      appliedDate = 1000, application_id = 1\<rparr>"

definition sampleStorage :: MemStorage where
  "sampleStorage = newMemStorage\<lparr>applications := [(1, sampleApplication)],
     applicationIdCounter := 2\<rparr>"

definition sampleUser :: InsertUser where
  "sampleUser =
     \<lparr>username = ''ada'', password = ''secret'', user_email = ''ada@example.org'',
      userType = ''employer'', companyName = Some ''Engines'', user_location = None,
      bio = None\<rparr>"

definition sampleJob :: InsertJob where
  "sampleJob =
     \<lparr>title = ''Designer'', company = ''Engines'', job_location = ''London'',
      description = ''Draw things'', requirements = ''Pencils'',
      salary = Some ''$60,000 - $80,000'', jobType = ''full-time'', category = ''Design'',
      experienceLevel = ''mid'', skills = [''drawing''], postedDate = 5000, employerId = 1\<rparr>"

definition secondDesign :: InsertCategory where
  "secondDesign = \<lparr>category_name = ''Design'', icon = ''fa-pen'', jobCount = 0\<rparr>"

text \<open>
  Three jobs.  The first writes its salary with grouping commas, the second writes the
  digits without them, the third has no salary.
\<close>

definition jobA :: InsertJob where
  "jobA = sampleJob\<lparr>title := ''Designer A'', postedDate := 2000\<rparr>"

definition jobB :: InsertJob where
  "jobB = sampleJob\<lparr>title := ''Engineer B'', category := ''Technology'', postedDate := 3000,
     salary := Some ''$60000''\<rparr>"

definition jobC :: InsertJob where
  "jobC = sampleJob\<lparr>title := ''Designer C'', postedDate := 1000, salary := None\<rparr>"

definition jobsStorage :: MemStorage where
  "jobsStorage = run [CreateJob jobA, CreateJob jobB, CreateJob jobC] newMemStorage"

definition noFilters :: JobFilters where
  "noFilters = \<lparr>search = None, filter_location = None, filter_category = None,
     filter_jobType = None, filter_experienceLevel = None, datePosted = None,
     salaryRange = None\<rparr>"

definition sampleUserBody :: UserBody where
  "sampleUserBody =
     \<lparr>body_username = Given ''ada'', body_password = Given ''secret'',
      body_email = Given ''ada@example.org'', body_userType = Given ''employer'',
      body_companyName = Given (Some ''Engines''), body_location = Missing, body_bio = Missing\<rparr>"

definition sampleJobBody :: JobBody where
  "sampleJobBody =
     \<lparr>body_title = Given ''Designer'', body_company = Given ''Engines'',
      body_job_location = Given ''London'', body_description = Given ''Draw things'',
      body_requirements = Given ''Pencils'', body_salary = Given (Some ''$60,000 - $80,000''),
      body_jobType = Given ''full-time'', body_category = Given ''Design'',
      body_experienceLevel = Given ''mid'', body_skills = Given [''drawing''],
      body_postedDate = Missing, body_employerId = Given 1\<rparr>"

definition sampleApplicationBody :: ApplicationBody where
  "sampleApplicationBody =
     \<lparr>body_jobId = Given 1, body_userId = Given 1, body_name = Given ''Ada'',
      body_application_email = Given ''ada@example.org'', body_phone = Given ''555'',
      body_resume = Given ''cv.pdf'', body_coverLetter = Missing, body_status = Missing,
      body_appliedDate = Missing\<rparr>"

section \<open>Map lemmas\<close>

lemma Map_get_set: "Map_get (Map_set k v m) k' = (if k' = k then Some v else Map_get m k')"
  by (simp add: Map_get_def Map_set_def update_conv')

lemma Map_keys_set:
  "Map_keys (Map_set k v m) = (if k \<in> set (Map_keys m) then Map_keys m else Map_keys m @ [k])"
  by (simp add: Map_keys_def Map_set_def update_keys)

lemma Map_get_None_iff: "Map_get m k = None \<longleftrightarrow> k \<notin> set (Map_keys m)"
  by (simp add: Map_get_def Map_keys_def map_of_eq_None_iff)

section \<open>Application status update\<close>

text \<open>
  Claim C4.  \<open>updateApplicationStatus i st\<close> on an id that holds no application returns
  the not-found value and the store unchanged.  On an id that holds an application it
  returns that application with the status replaced by \<open>st\<close>: id, jobId, userId, name,
  email, phone, resume, coverLetter and appliedDate are as before; the returned record is
  what the store then holds at the id, and nothing else in the store changes.
\<close>

theorem updateApplicationStatus_spec:
  "(Map_get (applications s) i = None \<longrightarrow> updateApplicationStatus i st s = (None, s)) \<and>
   (\<forall>app. Map_get (applications s) i = Some app \<longrightarrow>
      (\<exists>r s'. updateApplicationStatus i st s = (Some r, s') \<and>
         r = app\<lparr>status := st\<rparr> \<and>
         status r = st \<and>
         application_id r = application_id app \<and> jobId r = jobId app \<and>
         userId r = userId app \<and> application_name r = application_name app \<and>
         application_email r = application_email app \<and> phone r = phone app \<and>
         resume r = resume app \<and> coverLetter r = coverLetter app \<and>
         appliedDate r = appliedDate app \<and>
         Map_get (applications s') i = Some r \<and>
         (\<forall>k. k \<noteq> i \<longrightarrow> Map_get (applications s') k = Map_get (applications s) k) \<and>
         Map_keys (applications s') = Map_keys (applications s) \<and>
         s' = s\<lparr>applications := applications s'\<rparr>))"
proof (intro conjI allI impI)
  assume "Map_get (applications s) i = None"
  then show "updateApplicationStatus i st s = (None, s)"
    by (simp add: updateApplicationStatus_def)
next
  fix app
  assume found: "Map_get (applications s) i = Some app"
  then have "i \<in> set (Map_keys (applications s))"
    using Map_get_None_iff [of "applications s" i] by auto
  with found show "\<exists>r s'. updateApplicationStatus i st s = (Some r, s') \<and>
         r = app\<lparr>status := st\<rparr> \<and>
         status r = st \<and>
         application_id r = application_id app \<and> jobId r = jobId app \<and>
         userId r = userId app \<and> application_name r = application_name app \<and>
         application_email r = application_email app \<and> phone r = phone app \<and>
         resume r = resume app \<and> coverLetter r = coverLetter app \<and>
         appliedDate r = appliedDate app \<and>
         Map_get (applications s') i = Some r \<and>
         (\<forall>k. k \<noteq> i \<longrightarrow> Map_get (applications s') k = Map_get (applications s) k) \<and>
         Map_keys (applications s') = Map_keys (applications s) \<and>
         s' = s\<lparr>applications := applications s'\<rparr>"
    by (simp add: updateApplicationStatus_def Let_def Map_get_set Map_keys_set)
qed

theorem updateApplicationStatus_spec_witness:
  "updateApplicationStatus 7 ''hired'' sampleStorage = (None, sampleStorage) \<and>
   (\<exists>s'. updateApplicationStatus 1 ''hired'' sampleStorage =
      (Some (sampleApplication\<lparr>status := ''hired''\<rparr>), s'))"
proof -
  have none: "Map_get (applications sampleStorage) 7 = None"
    by (simp add: sampleStorage_def Map_get_def)
  have some: "Map_get (applications sampleStorage) 1 = Some sampleApplication"
    by (simp add: sampleStorage_def Map_get_def)
  from updateApplicationStatus_spec [of sampleStorage 7 "''hired''"] none
  have a: "updateApplicationStatus 7 ''hired'' sampleStorage = (None, sampleStorage)"
    by blast
  from updateApplicationStatus_spec [of sampleStorage 1 "''hired''"] some
  have "\<exists>s'. updateApplicationStatus 1 ''hired'' sampleStorage =
      (Some (sampleApplication\<lparr>status := ''hired''\<rparr>), s')"
    by blast
  with a show ?thesis by blast
qed

section \<open>Create and look up\<close>

lemma Map_set_in_values: "v \<in> set (Map_values (Map_set k v m))"
  unfolding Map_values_def Map_set_def by (induction m) auto

text \<open>
  Claim C5.  After each of the four create operations, looking the returned record's id
  up with the matching get operation returns exactly the record the create returned.
  The store has no lookup of an application by its id: the application is what the
  collection holds at the id, and the queries by job and by user return it.
\<close>

theorem create_then_get_roundtrip:
  "(case createUser user s of (r, s') \<Rightarrow> getUser (user_id r) s' = Some r) \<and>
   (case createJob job s of (r, s') \<Rightarrow> getJob (job_id r) s' = Some r) \<and>
   (case createApplication application s of (r, s') \<Rightarrow>
      Map_get (applications s') (application_id r) = Some r \<and>
      r \<in> set (getApplicationsByJob (jobId r) s') \<and>
      r \<in> set (getApplicationsByUser (userId r) s')) \<and>
   (case createCategory cat s of (r, s') \<Rightarrow> getCategory (category_id r) s' = Some r)"
  by (simp add: createUser_def createJob_def createApplication_def createCategory_def
      incrementCategoryJobCount_def getUser_def getJob_def getCategory_def Let_def
      getApplicationsByJob_def getApplicationsByUser_def Map_set_in_values
      Map_get_set InsertUser.defs User.defs InsertJob.defs Job.defs
      InsertApplication.defs Application.defs InsertCategory.defs Category.defs
      split: option.splits)

section \<open>The store invariant\<close>

lemma ids_from_one_fresh: "ids_from_one m n \<Longrightarrow> n \<notin> set (Map_keys m)"
  by (simp add: ids_from_one_def)

lemma ids_from_one_append:
  assumes "ids_from_one m n"
  shows "ids_from_one (Map_set n v m) (Suc n)"
proof -
  from assms have n: "1 \<le> n" and k: "Map_keys m = [1..<n]"
    by (simp_all add: ids_from_one_def)
  have "Map_keys (Map_set n v m) = [1..<n] @ [n]"
    by (simp add: Map_keys_set k)
  also have "\<dots> = [1..<Suc n]" using n by simp
  finally show ?thesis using n by (simp add: ids_from_one_def)
qed

lemma ids_from_one_replace:
  "ids_from_one m n \<Longrightarrow> Map_get m k = Some v \<Longrightarrow> ids_from_one (Map_set k v' m) n"
  using Map_get_None_iff [of m k] by (auto simp add: ids_from_one_def Map_keys_set)

lemma set_Map_set_subset: "set (Map_set k v m) \<subseteq> insert (k, v) (set m)"
  unfolding Map_set_def by (induction m) auto

lemma keyed_by_set: "keyed_by f m \<Longrightarrow> f v = k \<Longrightarrow> keyed_by f (Map_set k v m)"
  using set_Map_set_subset [of k v m] by (auto simp add: keyed_by_def)

lemma Map_get_in_set: "Map_get m k = Some v \<Longrightarrow> (k, v) \<in> set m"
  by (simp add: Map_get_def map_of_SomeD)

lemma keyed_by_get: "keyed_by f m \<Longrightarrow> Map_get m k = Some v \<Longrightarrow> f v = k"
  using Map_get_in_set [of m k v] by (auto simp add: keyed_by_def)

lemma keyed_by_replace:
  "keyed_by f m \<Longrightarrow> Map_get m k = Some v \<Longrightarrow> f v' = f v \<Longrightarrow> keyed_by f (Map_set k v' m)"
  using keyed_by_get [of f m k v] by (simp add: keyed_by_set)

lemma newMemStorage_eq:
  "newMemStorage =
     \<lparr>users = [], jobs = [], applications = [],
      categories =
        [(1, \<lparr>category_name = ''Technology'', icon = ''fa-laptop-code'', jobCount = 1245, category_id = 1\<rparr>),
         (2, \<lparr>category_name = ''Business'', icon = ''fa-chart-line'', jobCount = 879, category_id = 2\<rparr>),
         (3, \<lparr>category_name = ''Design'', icon = ''fa-paint-brush'', jobCount = 623, category_id = 3\<rparr>),
         (4, \<lparr>category_name = ''Marketing'', icon = ''fa-bullhorn'', jobCount = 542, category_id = 4\<rparr>),
         (5, \<lparr>category_name = ''Healthcare'', icon = ''fa-heartbeat'', jobCount = 1032, category_id = 5\<rparr>),
         (6, \<lparr>category_name = ''Education'', icon = ''fa-graduation-cap'', jobCount = 478, category_id = 6\<rparr>),
         (7, \<lparr>category_name = ''Legal'', icon = ''fa-gavel'', jobCount = 326, category_id = 7\<rparr>),
         (8, \<lparr>category_name = ''Hospitality'', icon = ''fa-utensils'', jobCount = 587, category_id = 8\<rparr>)],
      userIdCounter = 1, jobIdCounter = 1, applicationIdCounter = 1, categoryIdCounter = 9\<rparr>"
  by (simp add: newMemStorage_def initializeCategories_def defaultCategories_def
      emptyStorage_def createCategory_def Let_def Map_set_def
      InsertCategory.defs Category.defs)

lemma store_inv_new: "store_inv newMemStorage"
  by (simp add: newMemStorage_eq store_inv_def ids_from_one_def keyed_by_def Map_keys_def
      upt_conv_Cons)

lemma store_inv_createUser: "store_inv s \<Longrightarrow> store_inv (snd (createUser user s))"
  by (simp add: store_inv_def createUser_def Let_def ids_from_one_append keyed_by_set
      InsertUser.defs User.defs)

lemma store_inv_createApplication:
  "store_inv s \<Longrightarrow> store_inv (snd (createApplication application s))"
  by (simp add: store_inv_def createApplication_def Let_def ids_from_one_append keyed_by_set
      InsertApplication.defs Application.defs)

lemma store_inv_createCategory: "store_inv s \<Longrightarrow> store_inv (snd (createCategory cat s))"
  by (simp add: store_inv_def createCategory_def Let_def ids_from_one_append keyed_by_set
      InsertCategory.defs Category.defs)

lemma store_inv_updateApplicationStatus:
  "store_inv s \<Longrightarrow> store_inv (snd (updateApplicationStatus i st s))"
  by (auto simp add: store_inv_def updateApplicationStatus_def Let_def
      ids_from_one_replace intro: keyed_by_replace split: option.splits)

lemma store_inv_incrementCategoryJobCount:
  "store_inv s \<Longrightarrow> store_inv (snd (incrementCategoryJobCount i s))"
  by (auto simp add: store_inv_def incrementCategoryJobCount_def Let_def
      ids_from_one_replace intro: keyed_by_replace split: option.splits)

lemma store_inv_createJob: "store_inv s \<Longrightarrow> store_inv (snd (createJob job s))"
proof -
  assume inv: "store_inv s"
  define s2 where "s2 = s\<lparr>jobIdCounter := jobIdCounter s + 1,
    jobs := Map_set (jobIdCounter s) (InsertJob.extend job (Job.fields (jobIdCounter s))) (jobs s)\<rparr>"
  from inv have "store_inv s2"
    by (simp add: store_inv_def s2_def ids_from_one_append keyed_by_set InsertJob.defs Job.defs)
  then have "store_inv (snd (incrementCategoryJobCount i s2))" for i
    by (rule store_inv_incrementCategoryJobCount)
  with \<open>store_inv s2\<close> show ?thesis
    by (simp add: createJob_def Let_def s2_def split: option.splits)
qed

lemma store_inv_exec: "store_inv s \<Longrightarrow> store_inv (exec op s)"
  by (cases op) (simp_all add: store_inv_createUser store_inv_createJob
      store_inv_createApplication store_inv_createCategory
      store_inv_updateApplicationStatus store_inv_incrementCategoryJobCount)

lemma reachable_store_inv: "reachable s \<Longrightarrow> store_inv s"
  by (induction rule: reachable.induct) (simp_all add: store_inv_new store_inv_exec)

section \<open>Identifiers\<close>

lemma same_application_refl: "same_application a a"
  by (simp add: same_application_def)

lemma same_category_refl: "same_category c c"
  by (simp add: same_category_def)

lemma same_application_trans:
  assumes "same_application a b" "same_application b c"
  shows "same_application a c"
proof -
  have "c\<lparr>status := status a\<rparr> = (c\<lparr>status := status b\<rparr>)\<lparr>status := status a\<rparr>" by simp
  also have "\<dots> = b\<lparr>status := status a\<rparr>" using assms(2) by (simp only: same_application_def)
  also have "\<dots> = a" using assms(1) by (simp only: same_application_def)
  finally show ?thesis by (simp only: same_application_def)
qed

lemma same_category_trans:
  assumes "same_category a b" "same_category b c"
  shows "same_category a c"
proof -
  have "c\<lparr>jobCount := jobCount a\<rparr> = (c\<lparr>jobCount := jobCount b\<rparr>)\<lparr>jobCount := jobCount a\<rparr>" by simp
  also have "\<dots> = b\<lparr>jobCount := jobCount a\<rparr>" using assms(2) by (simp only: same_category_def)
  also have "\<dots> = a" using assms(1) by (simp only: same_category_def)
  finally show ?thesis by (simp only: same_category_def)
qed

lemma kept_refl: "(\<And>v. same v v) \<Longrightarrow> kept same m m"
  by (simp add: kept_def)

lemma kept_trans:
  assumes 12: "kept same m1 m2" and 23: "kept same m2 m3"
    and tr: "\<And>a b c. same a b \<Longrightarrow> same b c \<Longrightarrow> same a c"
  shows "kept same m1 m3"
  unfolding kept_def
proof (intro allI impI)
  fix k v assume "Map_get m1 k = Some v"
  with 12 obtain v' where 1: "Map_get m2 k = Some v'" "same v v'"
    unfolding kept_def by blast
  with 23 obtain v'' where 2: "Map_get m3 k = Some v''" "same v' v''"
    unfolding kept_def by blast
  from 1 2 tr show "\<exists>v'. Map_get m3 k = Some v' \<and> same v v'" by blast
qed

lemma kept_append:
  assumes "ids_from_one m n" and "\<And>v. same v v"
  shows "kept same m (Map_set n v m)"
  unfolding kept_def
proof (intro allI impI)
  fix k v0 assume g: "Map_get m k = Some v0"
  have "n \<notin> set (Map_keys m)" using assms(1) by (rule ids_from_one_fresh)
  then have "Map_get m n = None" by (simp add: Map_get_None_iff)
  with g have "k \<noteq> n" by auto
  with g assms(2) show "\<exists>v'. Map_get (Map_set n v m) k = Some v' \<and> same v0 v'"
    by (simp add: Map_get_set)
qed

lemma kept_replace:
  assumes "Map_get m k = Some v" "same v v'" "\<And>v. same v v"
  shows "kept same m (Map_set k v' m)"
  unfolding kept_def using assms by (simp add: Map_get_set)

lemma ids_kept_refl: "ids_kept s s"
  by (simp add: ids_kept_def kept_refl same_application_refl same_category_refl)

lemma ids_kept_trans:
  assumes "ids_kept s1 s2" "ids_kept s2 s3"
  shows "ids_kept s1 s3"
proof -
  have u: "kept (=) (users s1) (users s3)"
    using assms by (auto simp add: ids_kept_def intro: kept_trans)
  have j: "kept (=) (jobs s1) (jobs s3)"
    using assms by (auto simp add: ids_kept_def intro: kept_trans)
  have a: "kept same_application (applications s1) (applications s3)"
    using assms by (auto simp add: ids_kept_def intro: kept_trans same_application_trans)
  have c: "kept same_category (categories s1) (categories s3)"
    using assms by (auto simp add: ids_kept_def intro: kept_trans same_category_trans)
  from u j a c show ?thesis by (simp add: ids_kept_def)
qed

lemma ids_kept_createUser: "store_inv s \<Longrightarrow> ids_kept s (snd (createUser user s))"
  by (simp add: ids_kept_def store_inv_def createUser_def Let_def kept_append kept_refl
      same_application_refl same_category_refl)

lemma ids_kept_createApplication:
  "store_inv s \<Longrightarrow> ids_kept s (snd (createApplication application s))"
  by (simp add: ids_kept_def store_inv_def createApplication_def Let_def kept_append kept_refl
      same_application_refl same_category_refl)

lemma ids_kept_createCategory: "store_inv s \<Longrightarrow> ids_kept s (snd (createCategory cat s))"
  by (simp add: ids_kept_def store_inv_def createCategory_def Let_def kept_append kept_refl
      same_application_refl same_category_refl)

lemma ids_kept_updateApplicationStatus:
  "ids_kept s (snd (updateApplicationStatus i st s))"
  by (simp add: ids_kept_def updateApplicationStatus_def Let_def kept_replace kept_refl
      same_application_refl same_category_refl same_application_def split: option.splits)

lemma ids_kept_incrementCategoryJobCount:
  "ids_kept s (snd (incrementCategoryJobCount i s))"
  by (simp add: ids_kept_def incrementCategoryJobCount_def Let_def kept_replace kept_refl
      same_application_refl same_category_refl same_category_def split: option.splits)

lemma ids_kept_createJob:
  assumes "store_inv s"
  shows "ids_kept s (snd (createJob job s))"
proof -
  define s2 where "s2 = s\<lparr>jobIdCounter := jobIdCounter s + 1,
    jobs := Map_set (jobIdCounter s) (InsertJob.extend job (Job.fields (jobIdCounter s))) (jobs s)\<rparr>"
  from assms have 1: "ids_kept s s2"
    by (simp add: ids_kept_def store_inv_def s2_def kept_append kept_refl
        same_application_refl same_category_refl)
  have 2: "ids_kept s2 (snd (incrementCategoryJobCount i s2))" for i
    by (rule ids_kept_incrementCategoryJobCount)
  have "ids_kept s (snd (incrementCategoryJobCount i s2))" for i
    using 1 2 by (rule ids_kept_trans)
  with 1 show ?thesis
    by (simp add: createJob_def Let_def s2_def split: option.splits)
qed

lemma ids_kept_exec: "store_inv s \<Longrightarrow> ids_kept s (exec op s)"
  by (cases op) (simp_all add: ids_kept_createUser ids_kept_createJob
      ids_kept_createApplication ids_kept_createCategory
      ids_kept_updateApplicationStatus ids_kept_incrementCategoryJobCount)

lemma reachable_run: "reachable s \<Longrightarrow> reachable (run ops s)"
  unfolding run_def by (induction ops arbitrary: s) (simp_all add: reachable.step)

lemma ids_kept_run: "reachable s \<Longrightarrow> ids_kept s (run ops s)"
proof (induction ops arbitrary: s)
  case Nil
  show ?case by (simp add: run_def ids_kept_refl)
next
  case (Cons op ops)
  from Cons.prems have "ids_kept s (exec op s)"
    by (simp add: ids_kept_exec reachable_store_inv)
  moreover have "ids_kept (exec op s) (run ops (exec op s))"
    using Cons.prems by (intro Cons.IH reachable.step)
  ultimately show ?case
    using ids_kept_trans by (simp add: run_def)
qed

lemma ids_below_counter: "ids_from_one m n \<Longrightarrow> k \<in> set (Map_keys m) \<Longrightarrow> 1 \<le> k \<and> k < n"
  by (auto simp add: ids_from_one_def)

text \<open>
  Claim C6.  In every store a history of operations produces, and for each of the four
  collections: the ids in use are distinct and are, in creation order, 1, 2, ... up to
  the counter minus one (the store invariant); a create returns the counter as the new
  id, which is larger than every id in use, and moves the counter up by one; and after
  any further operations every id still holds the record it was given (a user or a job
  unchanged, an application up to its status, a category up to its jobCount).
\<close>

theorem ids_unique_increasing_never_reused:
  assumes "reachable s"
  shows "store_inv s \<and>
    distinct (Map_keys (users s)) \<and> distinct (Map_keys (jobs s)) \<and>
    distinct (Map_keys (applications s)) \<and> distinct (Map_keys (categories s)) \<and>
    (\<forall>user. user_id (fst (createUser user s)) = userIdCounter s \<and>
       userIdCounter (snd (createUser user s)) = userIdCounter s + 1 \<and>
       (\<forall>k \<in> set (Map_keys (users s)). 1 \<le> k \<and> k < userIdCounter s)) \<and>
    (\<forall>job. job_id (fst (createJob job s)) = jobIdCounter s \<and>
       jobIdCounter (snd (createJob job s)) = jobIdCounter s + 1 \<and>
       (\<forall>k \<in> set (Map_keys (jobs s)). 1 \<le> k \<and> k < jobIdCounter s)) \<and>
    (\<forall>application.
       application_id (fst (createApplication application s)) = applicationIdCounter s \<and>
       applicationIdCounter (snd (createApplication application s)) =
         applicationIdCounter s + 1 \<and>
       (\<forall>k \<in> set (Map_keys (applications s)). 1 \<le> k \<and> k < applicationIdCounter s)) \<and>
    (\<forall>cat. category_id (fst (createCategory cat s)) = categoryIdCounter s \<and>
       categoryIdCounter (snd (createCategory cat s)) = categoryIdCounter s + 1 \<and>
       (\<forall>k \<in> set (Map_keys (categories s)). 1 \<le> k \<and> k < categoryIdCounter s)) \<and>
    (\<forall>ops. ids_kept s (run ops s))"
proof -
  from assms have inv: "store_inv s" by (rule reachable_store_inv)
  then have d: "distinct (Map_keys (users s))" "distinct (Map_keys (jobs s))"
    "distinct (Map_keys (applications s))" "distinct (Map_keys (categories s))"
    by (simp_all add: store_inv_def ids_from_one_def)
  have u: "user_id (fst (createUser user s)) = userIdCounter s \<and>
       userIdCounter (snd (createUser user s)) = userIdCounter s + 1 \<and>
       (\<forall>k \<in> set (Map_keys (users s)). 1 \<le> k \<and> k < userIdCounter s)" for user
    using inv by (auto simp add: createUser_def Let_def InsertUser.defs User.defs store_inv_def
        dest: ids_below_counter)
  have j: "job_id (fst (createJob job s)) = jobIdCounter s \<and>
       jobIdCounter (snd (createJob job s)) = jobIdCounter s + 1 \<and>
       (\<forall>k \<in> set (Map_keys (jobs s)). 1 \<le> k \<and> k < jobIdCounter s)" for job
    using inv by (auto simp add: createJob_def incrementCategoryJobCount_def Let_def
        InsertJob.defs Job.defs store_inv_def dest: ids_below_counter split: option.splits)
  have a: "application_id (fst (createApplication application s)) = applicationIdCounter s \<and>
       applicationIdCounter (snd (createApplication application s)) =
         applicationIdCounter s + 1 \<and>
       (\<forall>k \<in> set (Map_keys (applications s)). 1 \<le> k \<and> k < applicationIdCounter s)"
    for application
    using inv by (auto simp add: createApplication_def Let_def InsertApplication.defs
        Application.defs store_inv_def dest: ids_below_counter)
  have c: "category_id (fst (createCategory cat s)) = categoryIdCounter s \<and>
       categoryIdCounter (snd (createCategory cat s)) = categoryIdCounter s + 1 \<and>
       (\<forall>k \<in> set (Map_keys (categories s)). 1 \<le> k \<and> k < categoryIdCounter s)" for cat
    using inv by (auto simp add: createCategory_def Let_def InsertCategory.defs
        Category.defs store_inv_def dest: ids_below_counter)
  have k: "ids_kept s (run ops s)" for ops
    using assms by (rule ids_kept_run)
  from inv d u j a c k show ?thesis by blast
qed

theorem ids_unique_increasing_never_reused_witness:
  "reachable (run [CreateUser sampleUser] newMemStorage) \<and>
   Map_keys (users (run [CreateUser sampleUser] newMemStorage)) = [1] \<and>
   user_id (fst (createUser sampleUser (run [CreateUser sampleUser] newMemStorage))) = 2 \<and>
   ids_kept (run [CreateUser sampleUser] newMemStorage)
     (run [CreateJob sampleJob, CreateUser sampleUser] (run [CreateUser sampleUser] newMemStorage))"
proof -
  let ?s = "run [CreateUser sampleUser] newMemStorage"
  have r: "reachable ?s"
    by (rule reachable_run) (rule reachable.init)
  have c: "userIdCounter ?s = 2" and k: "Map_keys (users ?s) = [1]"
    by (simp_all add: run_def createUser_def Let_def newMemStorage_eq Map_set_def Map_keys_def)
  from ids_unique_increasing_never_reused [OF r] c k r show ?thesis
    by simp
qed

section \<open>Creating a job\<close>

lemma Map_get_nth:
  assumes "ids_from_one m n" "i < length m"
  shows "Map_get m (Suc i) = Some (snd (m ! i))"
proof -
  from assms(1) have keys: "map fst m = [1..<n]"
    by (simp add: ids_from_one_def Map_keys_def)
  then have d: "distinct (map fst m)" by simp
  from keys have "length m = n - 1"
    by (metis length_map length_upt)
  with assms(2) have "[1..<n] ! i = Suc i" by simp
  with keys assms(2) have "fst (m ! i) = Suc i"
    by (metis nth_map)
  moreover have "m ! i \<in> set m" using assms(2) by simp
  ultimately have "(Suc i, snd (m ! i)) \<in> set m"
    by (metis prod.collapse)
  with d show ?thesis
    by (simp add: Map_get_def)
qed

lemma Map_get_Some_nth:
  assumes "ids_from_one m n" "Map_get m k = Some v"
  shows "\<exists>i < length m. k = Suc i \<and> v = snd (m ! i)"
proof -
  from assms(1) have keys: "map fst m = [1..<n]"
    by (simp add: ids_from_one_def Map_keys_def)
  then have len: "length m = n - 1"
    by (metis length_map length_upt)
  from assms(2) have "k \<in> set (Map_keys m)"
    using Map_get_None_iff [of m k] by auto
  with keys have "1 \<le> k" "k < n" by (simp_all add: Map_keys_def)
  then obtain i where i: "k = Suc i" "i < length m"
    using len by (cases k) auto
  with assms Map_get_nth [OF assms(1) i(2)] show ?thesis by auto
qed

lemma find_values_None:
  assumes "find P (Map_values m) = None" "Map_get m k = Some v"
  shows "\<not> P v"
proof -
  from assms(2) have "v \<in> set (Map_values m)"
    using Map_get_in_set [of m k v] by (force simp add: Map_values_def)
  with assms(1) show ?thesis by (simp add: find_None_iff)
qed

lemma find_values_Some:
  assumes ids: "ids_from_one m n" and kb: "keyed_by f m"
    and found: "find P (Map_values m) = Some c"
  shows "Map_get m (f c) = Some c \<and> P c \<and> (\<forall>k' v. k' < f c \<longrightarrow> Map_get m k' = Some v \<longrightarrow> \<not> P v)"
proof -
  from found obtain i where i: "i < length m" "P (snd (m ! i))" "c = snd (m ! i)"
    and least: "\<forall>j < i. \<not> P (snd (m ! j))"
    by (auto simp add: find_Some_iff Map_values_def)
  have g: "Map_get m (Suc i) = Some c"
    using Map_get_nth [OF ids i(1)] i(3) by simp
  with kb have fc: "f c = Suc i" by (rule keyed_by_get)
  have "\<not> P v" if "k' < f c" "Map_get m k' = Some v" for k' v
  proof -
    from Map_get_Some_nth [OF ids that(2)] obtain j where "j < length m" "k' = Suc j" "v = snd (m ! j)"
      by blast
    with that(1) fc least show ?thesis by simp
  qed
  with g fc i show ?thesis by simp
qed

lemma createJob_effect:
  assumes inv: "store_inv s"
  shows "\<exists>s'. createJob job s = (InsertJob.extend job (Job.fields (jobIdCounter s)), s') \<and>
    s' = s\<lparr>jobIdCounter := jobIdCounter s + 1, jobs := jobs s', categories := categories s'\<rparr> \<and>
    jobs s' = Map_set (jobIdCounter s) (InsertJob.extend job (Job.fields (jobIdCounter s))) (jobs s) \<and>
    Map_keys (categories s') = Map_keys (categories s) \<and>
    (\<forall>k. Map_get (categories s') k =
       map_option (\<lambda>c. if first_match s (category job) k then c\<lparr>jobCount := jobCount c + 1\<rparr> else c)
         (Map_get (categories s) k))"
proof -
  let ?P = "\<lambda>cat. category_name cat = category job"
  let ?m = "categories s"
  from inv have ids: "ids_from_one ?m (categoryIdCounter s)" and kb: "keyed_by category_id ?m"
    by (simp_all add: store_inv_def)
  show ?thesis
  proof (cases "find ?P (Map_values ?m)")
    case None
    have "\<not> first_match s (category job) k" for k
      using find_values_None [OF None, of k]
      by (auto simp add: first_match_def getCategory_def split: option.splits)
    then have "Map_get ?m k =
       map_option (\<lambda>c. if first_match s (category job) k then c\<lparr>jobCount := jobCount c + 1\<rparr> else c)
         (Map_get ?m k)" for k
      by (simp add: option.map_ident)
    with None show ?thesis
      by (simp add: createJob_def Let_def)
  next
    case (Some c)
    from find_values_Some [OF ids kb Some]
    have g: "Map_get ?m (category_id c) = Some c" and p: "?P c"
      and least: "\<And>k' v. k' < category_id c \<Longrightarrow> Map_get ?m k' = Some v \<Longrightarrow> \<not> ?P v"
      by blast+
    have fm: "first_match s (category job) k \<longleftrightarrow> k = category_id c"
      if "Map_get ?m k = Some v" for k v
    proof
      assume f: "first_match s (category job) k"
      show "k = category_id c"
      proof (rule ccontr)
        assume "k \<noteq> category_id c"
        then consider "k < category_id c" | "category_id c < k" by linarith
        then show False
        proof cases
          case 1
          with least that f show False
            by (auto simp add: first_match_def getCategory_def)
        next
          case 2
          with f have "case getCategory (category_id c) s of None \<Rightarrow> True
             | Some c' \<Rightarrow> category_name c' \<noteq> category job"
            by (simp add: first_match_def)
          with g p show False by (simp add: getCategory_def)
        qed
      qed
    next
      assume "k = category_id c"
      with g p least show "first_match s (category job) k"
        by (auto simp add: first_match_def getCategory_def split: option.splits)
    qed
    have keys: "Map_keys (Map_set (category_id c) v ?m) = Map_keys ?m" for v
      using g Map_get_None_iff [of ?m "category_id c"] by (simp add: Map_keys_set)
    have "Map_get (Map_set (category_id c) (c\<lparr>jobCount := jobCount c + 1\<rparr>) ?m) k =
       map_option (\<lambda>c. if first_match s (category job) k then c\<lparr>jobCount := jobCount c + 1\<rparr> else c)
         (Map_get ?m k)" for k
    proof (cases "Map_get ?m k")
      case None
      with g show ?thesis by (auto simp add: Map_get_set)
    next
      case (Some v)
      from fm [OF Some] Some g show ?thesis by (auto simp add: Map_get_set)
    qed
    with Some g keys show ?thesis
      by (simp add: createJob_def incrementCategoryJobCount_def Let_def)
  qed
qed


lemma first_match_unique:
  assumes "first_match s name k" "first_match s name k'"
  shows "k = k'"
proof (rule ccontr)
  assume "k \<noteq> k'"
  then consider "k < k'" | "k' < k" by linarith
  then show False
    using assms by cases (auto simp add: first_match_def split: option.splits)
qed

lemma first_match_exists:
  assumes "getCategory k s = Some c" "category_name c = name"
  shows "\<exists>k0 \<le> k. first_match s name k0"
proof -
  let ?Q = "\<lambda>k. case getCategory k s of None \<Rightarrow> False | Some c \<Rightarrow> category_name c = name"
  from assms have q: "?Q k" by simp
  then have 1: "?Q (LEAST k. ?Q k)" by (rule LeastI)
  have 2: "\<not> ?Q k'" if "k' < (LEAST k. ?Q k)" for k'
    using that by (rule not_less_Least)
  have 3: "(LEAST k. ?Q k) \<le> k" using q by (rule Least_le)
  have 4: "\<forall>k' < (LEAST k. ?Q k). case getCategory k' s of None \<Rightarrow> True
      | Some c' \<Rightarrow> category_name c' \<noteq> name"
  proof (intro allI impI)
    fix k' assume "k' < (LEAST k. ?Q k)"
    then have "\<not> ?Q k'" by (rule 2)
    then show "case getCategory k' s of None \<Rightarrow> True | Some c' \<Rightarrow> category_name c' \<noteq> name"
      by (cases "getCategory k' s") simp_all
  qed
  have "first_match s name (LEAST k. ?Q k)"
    unfolding first_match_def by (rule conjI [OF 1 4])
  with 3 show ?thesis by (intro exI conjI)
qed

lemma value_has_key: "v \<in> set (Map_values m) \<Longrightarrow> distinct (Map_keys m) \<Longrightarrow> \<exists>k. Map_get m k = Some v"
proof -
  assume "v \<in> set (Map_values m)" and d: "distinct (Map_keys m)"
  then obtain k where "(k, v) \<in> set m"
    by (auto simp add: Map_values_def)
  with d have "Map_get m k = Some v"
    by (simp add: Map_get_def Map_keys_def)
  then show ?thesis ..
qed

text \<open>
  Claim C3.  In every reachable store, \<open>createJob job\<close> returns the payload extended by
  the next job id and stores it under that id.  The categories keep their ids and order,
  and each category is afterwards what it was, except that the first category whose name
  is exactly the job's category has its jobCount one higher.  There is at most one such
  first category, there is one whenever some category bears the name, and when none does
  the categories are unchanged.
\<close>

theorem createJob_increments_matching_category:
  assumes "reachable s"
  shows "case createJob job s of (r, s') \<Rightarrow>
    r = InsertJob.extend job (Job.fields (jobIdCounter s)) \<and>
    InsertJob.truncate r = job \<and>
    getJob (job_id r) s' = Some r \<and>
    Map_keys (categories s') = Map_keys (categories s) \<and>
    (\<forall>k. getCategory k s' =
       (case getCategory k s of
          None \<Rightarrow> None
        | Some c \<Rightarrow>
            Some (if first_match s (category job) k
                  then c\<lparr>jobCount := jobCount c + 1\<rparr> else c))) \<and>
    (\<forall>k k'. first_match s (category job) k \<and> first_match s (category job) k' \<longrightarrow> k = k') \<and>
    ((\<exists>c \<in> set (getCategories s). category_name c = category job) \<longrightarrow>
       (\<exists>k. first_match s (category job) k)) \<and>
    ((\<forall>c \<in> set (getCategories s). category_name c \<noteq> category job) \<longrightarrow>
       categories s' = categories s)"
proof -
  from assms have inv: "store_inv s" by (rule reachable_store_inv)
  from createJob_effect [OF inv, of job] obtain s' where
    cj: "createJob job s = (InsertJob.extend job (Job.fields (jobIdCounter s)), s')"
    and js: "jobs s' = Map_set (jobIdCounter s)
       (InsertJob.extend job (Job.fields (jobIdCounter s))) (jobs s)"
    and keys: "Map_keys (categories s') = Map_keys (categories s)"
    and cats: "\<And>k. Map_get (categories s') k =
       map_option (\<lambda>c. if first_match s (category job) k
          then c\<lparr>jobCount := jobCount c + 1\<rparr> else c) (Map_get (categories s) k)"
    by blast
  have a: "InsertJob.truncate (InsertJob.extend job (Job.fields (jobIdCounter s))) = job"
    by (simp add: InsertJob.defs Job.defs)
  have b: "getJob (job_id (InsertJob.extend job (Job.fields (jobIdCounter s)))) s' =
      Some (InsertJob.extend job (Job.fields (jobIdCounter s)))"
    by (simp add: getJob_def js Map_get_set InsertJob.defs Job.defs)
  have c: "getCategory k s' =
       (case getCategory k s of
          None \<Rightarrow> None
        | Some c \<Rightarrow>
            Some (if first_match s (category job) k
                  then c\<lparr>jobCount := jobCount c + 1\<rparr> else c))" for k
    by (simp add: getCategory_def cats split: option.splits)
  have d: "first_match s (category job) k \<and> first_match s (category job) k' \<longrightarrow> k = k'"
    for k k'
    using first_match_unique by blast
  have e: "(\<exists>c \<in> set (getCategories s). category_name c = category job) \<longrightarrow>
       (\<exists>k. first_match s (category job) k)"
  proof
    assume "\<exists>c \<in> set (getCategories s). category_name c = category job"
    then obtain c where cin: "c \<in> set (Map_values (categories s))"
      and "category_name c = category job"
      by (auto simp add: getCategories_def)
    have dist: "distinct (Map_keys (categories s))"
      using inv by (simp add: store_inv_def ids_from_one_def)
    from value_has_key [OF cin dist] obtain k where "Map_get (categories s) k = Some c" ..
    then have "getCategory k s = Some c" by (simp add: getCategory_def)
    with \<open>category_name c = category job\<close> show "\<exists>k. first_match s (category job) k"
      using first_match_exists by blast
  qed
  have f: "(\<forall>c \<in> set (getCategories s). category_name c \<noteq> category job) \<longrightarrow>
       categories s' = categories s"
  proof
    assume "\<forall>c \<in> set (getCategories s). category_name c \<noteq> category job"
    then have "find (\<lambda>cat. category_name cat = category job) (Map_values (categories s)) = None"
      by (simp add: find_None_iff getCategories_def)
    with cj show "categories s' = categories s"
      by (auto simp add: createJob_def Let_def)
  qed
  from a b c d e f keys show ?thesis
    unfolding cj by simp
qed

theorem createJob_increments_matching_category_witness:
  "reachable newMemStorage \<and>
   getCategory 3 (snd (createJob sampleJob newMemStorage)) =
     Some \<lparr>category_name = ''Design'', icon = ''fa-paint-brush'', jobCount = 624,
       category_id = 3\<rparr> \<and>
   getCategory 2 (snd (createJob sampleJob newMemStorage)) =
     Some \<lparr>category_name = ''Business'', icon = ''fa-chart-line'', jobCount = 879,
       category_id = 2\<rparr> \<and>
   categories (snd (createJob (sampleJob\<lparr>category := ''design''\<rparr>) newMemStorage)) =
     categories newMemStorage"
proof -
  have fm3: "first_match newMemStorage ''Design'' 3"
    by (simp add: first_match_def getCategory_def Map_get_def newMemStorage_eq
        numeral_3_eq_3 less_Suc_eq)
  have fm1: "\<not> first_match newMemStorage ''Design'' 2"
    by (simp add: first_match_def getCategory_def Map_get_def newMemStorage_eq)
  have none: "\<forall>c \<in> set (getCategories newMemStorage). category_name c \<noteq> ''design''"
    by (simp add: getCategories_def Map_values_def newMemStorage_eq)
  have g3: "getCategory 3 newMemStorage = Some \<lparr>category_name = ''Design'',
      icon = ''fa-paint-brush'', jobCount = 623, category_id = 3\<rparr>"
    and g1: "getCategory 2 newMemStorage = Some \<lparr>category_name = ''Business'',
      icon = ''fa-chart-line'', jobCount = 879, category_id = 2\<rparr>"
    by (simp_all add: getCategory_def Map_get_def newMemStorage_eq)
  have cat: "category sampleJob = ''Design''" by (simp add: sampleJob_def)
  obtain r s' where e: "createJob sampleJob newMemStorage = (r, s')"
    by (cases "createJob sampleJob newMemStorage")
  from createJob_increments_matching_category [OF reachable.init, of sampleJob]
  have k: "getCategory k s' =
       (case getCategory k newMemStorage of
          None \<Rightarrow> None
        | Some c \<Rightarrow>
            Some (if first_match newMemStorage (category sampleJob) k
                  then c\<lparr>jobCount := jobCount c + 1\<rparr> else c))" for k
    unfolding e prod.case by blast
  have r3: "getCategory 3 (snd (createJob sampleJob newMemStorage)) =
     Some \<lparr>category_name = ''Design'', icon = ''fa-paint-brush'', jobCount = 624,
       category_id = 3\<rparr>"
    using k [of 3] by (simp add: e g3 fm3 cat)
  have r1: "getCategory 2 (snd (createJob sampleJob newMemStorage)) =
     Some \<lparr>category_name = ''Business'', icon = ''fa-chart-line'', jobCount = 879,
       category_id = 2\<rparr>"
    using k [of 2] by (simp add: e g1 fm1 cat)
  obtain r2 s2 where e2:
    "createJob (sampleJob\<lparr>category := ''design''\<rparr>) newMemStorage = (r2, s2)"
    by (cases "createJob (sampleJob\<lparr>category := ''design''\<rparr>) newMemStorage")
  from createJob_increments_matching_category [OF reachable.init,
      of "sampleJob\<lparr>category := ''design''\<rparr>"]
  have "(\<forall>c \<in> set (getCategories newMemStorage).
          category_name c \<noteq> category (sampleJob\<lparr>category := ''design''\<rparr>)) \<longrightarrow>
       categories s2 = categories newMemStorage"
    unfolding e2 prod.case by blast
  with none have "categories s2 = categories newMemStorage" by simp
  with r3 r1 reachable.init show ?thesis by (simp add: e2)
qed


text \<open>
  Claim C10.  In a reachable store the categories are listed in creation order, which is
  the order of their ids.  When several categories bear the name in the job's category
  field, \<open>createJob\<close> raises the jobCount of the one with the lowest id, and every other
  category bearing the name is afterwards exactly what it was.
\<close>

theorem createJob_duplicate_names_lowest_id:
  assumes "reachable s"
    and "getCategory k1 s = Some c1" and "category_name c1 = category job"
    and "\<forall>k c. getCategory k s = Some c \<and> category_name c = category job \<longrightarrow> k1 \<le> k"
  shows "Map_keys (categories s) = [1..<categoryIdCounter s] \<and>
    getCategory k1 (snd (createJob job s)) = Some (c1\<lparr>jobCount := jobCount c1 + 1\<rparr>) \<and>
    (\<forall>k2 c2. k2 \<noteq> k1 \<and> getCategory k2 s = Some c2 \<and> category_name c2 = category job \<longrightarrow>
       getCategory k2 (snd (createJob job s)) = Some c2)"
proof -
  from assms(1) have inv: "store_inv s" by (rule reachable_store_inv)
  from createJob_effect [OF inv, of job] obtain s' where
    cj: "snd (createJob job s) = s'"
    and cats: "\<And>k. Map_get (categories s') k =
       map_option (\<lambda>c. if first_match s (category job) k
          then c\<lparr>jobCount := jobCount c + 1\<rparr> else c) (Map_get (categories s) k)"
    by force
  have "\<forall>k' < k1. case getCategory k' s of None \<Rightarrow> True
      | Some c' \<Rightarrow> category_name c' \<noteq> category job"
  proof (intro allI impI)
    fix k' assume "k' < k1"
    with assms(4) show "case getCategory k' s of None \<Rightarrow> True
      | Some c' \<Rightarrow> category_name c' \<noteq> category job"
      by (cases "getCategory k' s") auto
  qed
  with assms(2,3) have fm: "first_match s (category job) k1"
    by (simp add: first_match_def)
  have 1: "getCategory k1 s' = Some (c1\<lparr>jobCount := jobCount c1 + 1\<rparr>)"
    using assms(2) fm by (simp add: getCategory_def cats)
  have 2: "getCategory k2 s' = Some c2"
    if "k2 \<noteq> k1" "getCategory k2 s = Some c2" for k2 c2
  proof -
    from that(1) fm have "\<not> first_match s (category job) k2"
      using first_match_unique by blast
    with that(2) show ?thesis by (simp add: getCategory_def cats)
  qed
  from inv have "Map_keys (categories s) = [1..<categoryIdCounter s]"
    by (simp add: store_inv_def ids_from_one_def)
  with 1 2 show ?thesis unfolding cj by blast
qed

theorem createJob_duplicate_names_lowest_id_witness:
  "reachable (run [CreateCategory secondDesign] newMemStorage) \<and>
   getCategory 3 (run [CreateCategory secondDesign] newMemStorage) =
     Some \<lparr>category_name = ''Design'', icon = ''fa-paint-brush'', jobCount = 623,
       category_id = 3\<rparr> \<and>
   getCategory 9 (run [CreateCategory secondDesign] newMemStorage) =
     Some \<lparr>category_name = ''Design'', icon = ''fa-pen'', jobCount = 0, category_id = 9\<rparr> \<and>
   getCategory 3 (snd (createJob sampleJob (run [CreateCategory secondDesign] newMemStorage))) =
     Some \<lparr>category_name = ''Design'', icon = ''fa-paint-brush'', jobCount = 624,
       category_id = 3\<rparr> \<and>
   getCategory 9 (snd (createJob sampleJob (run [CreateCategory secondDesign] newMemStorage))) =
     Some \<lparr>category_name = ''Design'', icon = ''fa-pen'', jobCount = 0, category_id = 9\<rparr>"
proof -
  let ?s = "run [CreateCategory secondDesign] newMemStorage"
  let ?c3 = "\<lparr>category_name = ''Design'', icon = ''fa-paint-brush'', jobCount = 623,
       category_id = 3\<rparr>"
  let ?c9 = "\<lparr>category_name = ''Design'', icon = ''fa-pen'', jobCount = 0, category_id = 9\<rparr>"
  have r: "reachable ?s"
    by (rule reachable_run) (rule reachable.init)
  have "categories ?s = categories newMemStorage @ [(9, ?c9)]"
    by (simp add: run_def createCategory_def Let_def newMemStorage_eq Map_set_def
        secondDesign_def InsertCategory.defs Category.defs)
  then have cats: "Map_get (categories ?s) k =
      (case Map_get (categories newMemStorage) k of
         None \<Rightarrow> if k = 9 then Some ?c9 else None
       | Some c \<Rightarrow> Some c)" for k
    by (auto simp add: Map_get_def map_add_def split: option.splits)
  have g3: "getCategory 3 ?s = Some ?c3" and g9: "getCategory 9 ?s = Some ?c9"
    by (simp_all add: getCategory_def cats) (simp_all add: Map_get_def newMemStorage_eq)
  have cat: "category sampleJob = ''Design''" by (simp add: sampleJob_def)
  have least: "\<forall>k c. getCategory k ?s = Some c \<and> category_name c = category sampleJob \<longrightarrow> 3 \<le> k"
    unfolding getCategory_def cats
    by (auto simp add: Map_get_def newMemStorage_eq cat split: if_splits)
  have n3: "category_name ?c3 = category sampleJob" and n9: "category_name ?c9 = category sampleJob"
    by (simp_all add: cat)
  from createJob_duplicate_names_lowest_id [OF r g3 n3 least]
  have a: "getCategory 3 (snd (createJob sampleJob ?s)) = Some (?c3\<lparr>jobCount := jobCount ?c3 + 1\<rparr>)"
    and b: "\<forall>k2 c2. k2 \<noteq> 3 \<and> getCategory k2 ?s = Some c2 \<and> category_name c2 = category sampleJob \<longrightarrow>
       getCategory k2 (snd (createJob sampleJob ?s)) = Some c2"
    by blast+
  from b g9 n9 have "getCategory 9 (snd (createJob sampleJob ?s)) = Some ?c9"
    by simp
  with a r g3 g9 show ?thesis by simp
qed

section \<open>Job search\<close>

text \<open>
  Claim C9.  An empty string as the search, location or category filter, and an empty
  list as the jobType or experienceLevel filter, give the result of the same call with
  that filter absent.
\<close>

theorem getJobs_empty_filter_is_unset:
  "getJobs rt (Some (f\<lparr>search := Some []\<rparr>)) s =
     getJobs rt (Some (f\<lparr>search := None\<rparr>)) s \<and>
   getJobs rt (Some (f\<lparr>filter_location := Some []\<rparr>)) s =
     getJobs rt (Some (f\<lparr>filter_location := None\<rparr>)) s \<and>
   getJobs rt (Some (f\<lparr>filter_category := Some []\<rparr>)) s =
     getJobs rt (Some (f\<lparr>filter_category := None\<rparr>)) s \<and>
   getJobs rt (Some (f\<lparr>filter_jobType := Some []\<rparr>)) s =
     getJobs rt (Some (f\<lparr>filter_jobType := None\<rparr>)) s \<and>
   getJobs rt (Some (f\<lparr>filter_experienceLevel := Some []\<rparr>)) s =
     getJobs rt (Some (f\<lparr>filter_experienceLevel := None\<rparr>)) s"
  by (simp add: getJobs_def Let_def filterBySearch_def filterByLocation_def
      filterByCategory_def filterByJobType_def filterByExperienceLevel_def
      filterByDatePosted_def filterBySalaryRange_def)

section \<open>The salary filter\<close>

lemma jobsStorage_jobs:
  "Map_values (jobs jobsStorage) =
     [InsertJob.extend jobA (Job.fields 1), InsertJob.extend jobB (Job.fields 2),
      InsertJob.extend jobC (Job.fields 3)]"
  by (simp add: jobsStorage_def run_def createJob_def incrementCategoryJobCount_def Let_def
      newMemStorage_eq Map_set_def Map_get_def Map_values_def jobA_def jobB_def jobC_def
      sampleJob_def InsertJob.defs Job.defs)

lemma filter_value_digits: "filter isDigit ''$55,000'' = ''55000''"
  by (simp add: isDigit_def)

lemma ungrouped_salary_facts:
  "list_all isDigit ''60000''"
  "decimal ''55000'' \<le> decimal ''60000''"
  "matchSalary (CHR ''$'' # ''60000'') = Some ''600''"
  by (simp_all add: isDigit_def decimal_def digitValue_def matchAmount_def)

lemma salary_examples:
  "salaryAtLeast rt (parseInt rt ''55000'') (InsertJob.extend jobA (Job.fields 1))"
  "\<not> salaryAtLeast rt (parseInt rt ''55000'') (InsertJob.extend jobB (Job.fields 2))"
  "\<not> salaryAtLeast rt (parseInt rt ''55000'') (InsertJob.extend jobC (Job.fields 3))"
  by (simp_all add: salaryAtLeast_def parseInt_def decimal_def digitValue_def isDigit_def
      matchAmount_def geNumber_def jobA_def jobB_def jobC_def sampleJob_def
      InsertJob.defs Job.defs Let_def)

lemma getJobs_salaryRange_only:
  "getJobs rt (Some (noFilters\<lparr>salaryRange := Some ''$55,000''\<rparr>)) s =
     Array_sort (\<lambda>a b. postedDate b - postedDate a)
       (filter (salaryAtLeast rt (parseInt rt ''55000'')) (Map_values (jobs s)))"
  by (simp add: getJobs_def Let_def filterBySearch_def filterByLocation_def
      filterByCategory_def filterByJobType_def filterByExperienceLevel_def
      filterByDatePosted_def filterBySalaryRange_def noFilters_def filter_value_digits
      del: filter.simps)

lemma getJobs_category_and_salaryRange:
  "getJobs rt
     (Some (noFilters\<lparr>filter_category := Some ''Technology'',
        salaryRange := Some ''$55,000''\<rparr>)) s =
     Array_sort (\<lambda>a b. postedDate b - postedDate a)
       (filter (salaryAtLeast rt (parseInt rt ''55000''))
          (filter (\<lambda>job. category job = ''Technology'') (Map_values (jobs s))))"
  by (simp add: getJobs_def Let_def filterBySearch_def filterByLocation_def
      filterByCategory_def filterByJobType_def filterByExperienceLevel_def
      filterByDatePosted_def filterBySalaryRange_def noFilters_def filter_value_digits
      del: filter.simps)

text \<open>
  Claim C2, at a salary written without grouping commas.  The second sample job is stored
  with the salary text \<open>$60000\<close>: a dollar sign followed by digits, which spell 60000,
  and the filter value \<open>$55,000\<close> has the digits 55000.  The token the regular
  expression reads from that salary is \<open>600\<close>, and the search with the filter returns
  the first job, whose salary text is \<open>$60,000 - $80,000\<close>, and not the second.
\<close>

theorem salaryRange_reads_ungrouped_salary_short:
  "InsertJob.extend jobB (Job.fields 2) \<in> set (Map_values (jobs jobsStorage)) \<and>
   salary (InsertJob.extend jobB (Job.fields 2)) = Some (CHR ''$'' # ''60000'') \<and>
   list_all isDigit ''60000'' \<and>
   filter isDigit ''$55,000'' = ''55000'' \<and>
   decimal ''55000'' \<le> decimal ''60000'' \<and>
   matchSalary (CHR ''$'' # ''60000'') = Some ''600'' \<and>
   getJobs rt (Some (noFilters\<lparr>salaryRange := Some ''$55,000''\<rparr>)) jobsStorage =
     [InsertJob.extend jobA (Job.fields 1)]"
proof -
  let ?b = "InsertJob.extend jobB (Job.fields 2)"
  have 1: "?b \<in> set (Map_values (jobs jobsStorage))"
    by (simp add: jobsStorage_jobs)
  have 2: "salary ?b = Some (CHR ''$'' # ''60000'')"
    by (simp add: jobB_def InsertJob.defs Job.defs)
  have 3: "getJobs rt (Some (noFilters\<lparr>salaryRange := Some ''$55,000''\<rparr>)) jobsStorage =
     [InsertJob.extend jobA (Job.fields 1)]"
    unfolding getJobs_salaryRange_only jobsStorage_jobs
    using salary_examples [of rt] by (simp add: Array_sort_def)
  show ?thesis
    by (intro conjI 1 2 3 filter_value_digits ungrouped_salary_facts)
qed

text \<open>
  Claim C1, at a search with two filters.  The second sample job is stored with the
  category \<open>Technology\<close> and the salary text \<open>$60000\<close>, so it has the category the
  category filter asks for, and its salary, a dollar sign followed by the digits 60000,
  is at least the 55000 of the salary filter.  The search with both filters returns no
  job.
\<close>

theorem getJobs_drops_job_meeting_both_filters:
  "InsertJob.extend jobB (Job.fields 2) \<in> set (Map_values (jobs jobsStorage)) \<and>
   category (InsertJob.extend jobB (Job.fields 2)) = ''Technology'' \<and>
   salary (InsertJob.extend jobB (Job.fields 2)) = Some (CHR ''$'' # ''60000'') \<and>
   list_all isDigit ''60000'' \<and>
   decimal (filter isDigit ''$55,000'') \<le> decimal ''60000'' \<and>
   getJobs rt
     (Some (noFilters\<lparr>filter_category := Some ''Technology'',
        salaryRange := Some ''$55,000''\<rparr>)) jobsStorage = []"
proof -
  let ?b = "InsertJob.extend jobB (Job.fields 2)"
  have 1: "?b \<in> set (Map_values (jobs jobsStorage))"
    by (simp add: jobsStorage_jobs)
  have 2: "category ?b = ''Technology''"
    and 3: "salary ?b = Some (CHR ''$'' # ''60000'')"
    by (simp_all add: jobB_def InsertJob.defs Job.defs)
  have 4: "decimal (filter isDigit ''$55,000'') \<le> decimal ''60000''"
    by (simp only: filter_value_digits ungrouped_salary_facts)
  have cats: "category (InsertJob.extend jobA (Job.fields 1)) \<noteq> ''Technology''"
    "category (InsertJob.extend jobC (Job.fields 3)) \<noteq> ''Technology''"
    by (simp_all add: jobA_def jobC_def sampleJob_def InsertJob.defs Job.defs)
  have 5: "getJobs rt
     (Some (noFilters\<lparr>filter_category := Some ''Technology'',
        salaryRange := Some ''$55,000''\<rparr>)) jobsStorage = []"
    unfolding getJobs_category_and_salaryRange jobsStorage_jobs
    using salary_examples [of rt] cats 2 by (simp add: Array_sort_def)
  show ?thesis
    by (intro conjI 1 2 3 4 5 ungrouped_salary_facts)
qed

section \<open>Creating users over HTTP\<close>

lemma Map_set_fresh: "k \<notin> set (Map_keys m) \<Longrightarrow> Map_set k v m = m @ [(k, v)]"
  unfolding Map_set_def Map_keys_def by (induction m) auto

lemma getUserByUsername_None:
  "getUserByUsername name s = None \<longleftrightarrow> \<not> (\<exists>u \<in> set (Map_values (users s)). username u = name)"
  by (auto simp add: getUserByUsername_def find_None_iff)

lemma post_api_users_cases:
  assumes "store_inv s" and "insertUserSchema_parse body = Some userData"
  shows "if (\<exists>u \<in> set (Map_values (users s)). username u = username userData)
     then post_api_users body s = (Message 400 ''Username already exists'', s)
     else (\<exists>newUser. post_api_users body s = (Json 201 newUser, snd (createUser userData s)) \<and>
             newUser = InsertUser.extend userData (User.fields (userIdCounter s)) \<and>
             users (snd (createUser userData s)) = users s @ [(userIdCounter s, newUser)])"
proof (cases "getUserByUsername (username userData) s")
  case None
  from assms(1) have "userIdCounter s \<notin> set (Map_keys (users s))"
    by (simp add: store_inv_def ids_from_one_fresh)
  then have "Map_set (userIdCounter s) v (users s) = users s @ [(userIdCounter s, v)]" for v
    by (rule Map_set_fresh)
  with None assms(2) show ?thesis
    using getUserByUsername_None [of "username userData" s]
    by (simp add: post_api_users_def createUser_def Let_def)
next
  case (Some existingUser)
  then have "\<exists>u \<in> set (Map_values (users s)). username u = username userData"
    using getUserByUsername_None [of "username userData" s] by simp
  with Some assms(2) show ?thesis
    by (simp add: post_api_users_def)
qed

lemma post_api_users_step:
  "snd (post_api_users body s) = s \<or> (\<exists>user. snd (post_api_users body s) = exec (CreateUser user) s)"
proof (cases "insertUserSchema_parse body")
  case None
  then show ?thesis by (simp add: post_api_users_def)
next
  case (Some userData)
  show ?thesis
  proof (cases "getUserByUsername (username userData) s")
    case None
    with Some have "snd (post_api_users body s) = exec (CreateUser userData) s"
      by (simp add: post_api_users_def split: prod.splits)
    then show ?thesis by blast
  next
    case (Some existingUser)
    with \<open>insertUserSchema_parse body = Some userData\<close> show ?thesis
      by (simp add: post_api_users_def)
  qed
qed

lemma post_api_users_reachable:
  assumes "reachable s"
  shows "reachable (snd (post_api_users body s))"
proof -
  from post_api_users_step [of body s] consider "snd (post_api_users body s) = s"
    | user where "snd (post_api_users body s) = exec (CreateUser user) s"
    by blast
  then show ?thesis
  proof cases
    case 1
    with assms show ?thesis by simp
  next
    case 2
    with reachable.step [OF assms, of "CreateUser user"] show ?thesis by simp
  qed
qed

lemma post_api_users_keys:
  "set (Map_keys (users s)) \<subseteq> set (Map_keys (users (snd (post_api_users body s))))"
  by (auto simp add: post_api_users_def createUser_def Let_def Map_keys_set
      split: option.splits)

lemma post_api_users_issued:
  "post_api_users body s = (Json 201 u, s') \<Longrightarrow> user_id u \<in> set (Map_keys (users s'))"
  by (auto simp add: post_api_users_def createUser_def Let_def Map_keys_set
      InsertUser.defs User.defs split: option.splits)

lemma serve_users_invariant:
  assumes "reachable s" and "serve_users bodies s = (rs, s')"
  shows "reachable s' \<and> set (Map_keys (users s)) \<subseteq> set (Map_keys (users s')) \<and>
    (\<forall>u. Json 201 u \<in> set rs \<longrightarrow> user_id u \<in> set (Map_keys (users s')))"
  using assms
proof (induction bodies arbitrary: s rs s')
  case Nil
  then show ?case by simp
next
  case (Cons body bodies)
  obtain r s1 where p: "post_api_users body s = (r, s1)"
    by (cases "post_api_users body s")
  obtain rs1 s2 where q: "serve_users bodies s1 = (rs1, s2)"
    by (cases "serve_users bodies s1")
  from Cons.prems(2) p q have eq: "rs = r # rs1" "s' = s2" by simp_all
  from Cons.prems(1) p have r1: "reachable s1"
    using post_api_users_reachable [of s body] by simp
  from Cons.IH [OF r1 q] have ih: "reachable s2"
    "set (Map_keys (users s1)) \<subseteq> set (Map_keys (users s2))"
    "\<forall>u. Json 201 u \<in> set rs1 \<longrightarrow> user_id u \<in> set (Map_keys (users s2))"
    by simp_all
  from p have k: "set (Map_keys (users s)) \<subseteq> set (Map_keys (users s1))"
    using post_api_users_keys [of s body] by simp
  have "user_id u \<in> set (Map_keys (users s2))" if "r = Json 201 u" for u
    using post_api_users_issued [of body s u s1] p that ih(2) by auto
  with ih k show ?case unfolding eq by auto
qed

text \<open>
  Claim C8.  After any sequence of POST /api/users requests on a new store, a further
  request whose body passes the schema is answered as follows.  If no stored user has the
  username, the answer is 201 with the new user, whose id differs from the id in every
  earlier 201 answer and from every id in the store; the user is appended to the
  collection.  If a stored user has exactly that username, the answer is 400 with the
  message "Username already exists" and the store is unchanged.
\<close>

theorem post_users_unique_usernames:
  assumes "serve_users bodies newMemStorage = (rs, s)"
    and "insertUserSchema_parse body = Some userData"
  shows "if (\<exists>u \<in> set (Map_values (users s)). username u = username userData)
     then post_api_users body s = (Message 400 ''Username already exists'', s)
     else (\<exists>newUser s'. post_api_users body s = (Json 201 newUser, s') \<and>
             InsertUser.truncate newUser = userData \<and>
             (\<forall>u. Json 201 u \<in> set rs \<longrightarrow> user_id u \<noteq> user_id newUser) \<and>
             user_id newUser \<notin> set (Map_keys (users s)) \<and>
             getUser (user_id newUser) s' = Some newUser \<and>
             users s' = users s @ [(user_id newUser, newUser)])"
proof -
  from serve_users_invariant [OF reachable.init assms(1)]
  have r: "reachable s"
    and issued: "\<forall>u. Json 201 u \<in> set rs \<longrightarrow> user_id u \<in> set (Map_keys (users s))"
    by simp_all
  from r have inv: "store_inv s" by (rule reachable_store_inv)
  then have fresh: "userIdCounter s \<notin> set (Map_keys (users s))"
    by (simp add: store_inv_def ids_from_one_fresh)
  show ?thesis
  proof (cases "\<exists>u \<in> set (Map_values (users s)). username u = username userData")
    case True
    with post_api_users_cases [OF inv assms(2)] show ?thesis by simp
  next
    case False
    let ?n = "InsertUser.extend userData (User.fields (userIdCounter s))"
    let ?s' = "snd (createUser userData s)"
    from False post_api_users_cases [OF inv assms(2)]
    have p: "post_api_users body s = (Json 201 ?n, ?s')"
      and u: "users ?s' = users s @ [(userIdCounter s, ?n)]"
      by simp_all
    have i: "user_id ?n = userIdCounter s" and t: "InsertUser.truncate ?n = userData"
      by (simp_all add: InsertUser.defs User.defs)
    have g: "getUser (user_id ?n) ?s' = Some ?n"
      by (simp add: getUser_def createUser_def Let_def Map_get_set i)
    have nz: "\<forall>u. Json 201 u \<in> set rs \<longrightarrow> user_id u \<noteq> user_id ?n"
      using issued fresh i by auto
    have f': "user_id ?n \<notin> set (Map_keys (users s))"
      using fresh by (simp add: i)
    have u': "users ?s' = users s @ [(user_id ?n, ?n)]"
      using u by (simp add: i)
    from p t nz f' g u'
    have "\<exists>newUser s'. post_api_users body s = (Json 201 newUser, s') \<and>
             InsertUser.truncate newUser = userData \<and>
             (\<forall>u. Json 201 u \<in> set rs \<longrightarrow> user_id u \<noteq> user_id newUser) \<and>
             user_id newUser \<notin> set (Map_keys (users s)) \<and>
             getUser (user_id newUser) s' = Some newUser \<and>
             users s' = users s @ [(user_id newUser, newUser)]"
      by (intro exI [of _ ?n] exI [of _ ?s'] conjI)
    with False show ?thesis by simp
  qed
qed

theorem post_users_unique_usernames_witness:
  "post_api_users sampleUserBody (snd (serve_users [sampleUserBody] newMemStorage)) =
     (Message 400 ''Username already exists'', snd (serve_users [sampleUserBody] newMemStorage)) \<and>
   (\<exists>newUser s'.
      post_api_users (sampleUserBody\<lparr>body_username := Given ''Ada''\<rparr>)
        (snd (serve_users [sampleUserBody] newMemStorage)) = (Json 201 newUser, s') \<and>
      user_id newUser \<notin> set (Map_keys (users (snd (serve_users [sampleUserBody] newMemStorage)))))"
proof -
  let ?rs = "fst (serve_users [sampleUserBody] newMemStorage)"
  let ?s = "snd (serve_users [sampleUserBody] newMemStorage)"
  have run: "serve_users [sampleUserBody] newMemStorage = (?rs, ?s)" by simp
  have p1: "insertUserSchema_parse sampleUserBody = Some sampleUser"
    by (simp add: insertUserSchema_parse_def sampleUserBody_def sampleUser_def required_def
        nullable_def)
  have p2: "insertUserSchema_parse (sampleUserBody\<lparr>body_username := Given ''Ada''\<rparr>) =
      Some (sampleUser\<lparr>username := ''Ada''\<rparr>)"
    by (simp add: insertUserSchema_parse_def sampleUserBody_def sampleUser_def required_def
        nullable_def)
  have us: "Map_values (users ?s) = [InsertUser.extend sampleUser (User.fields 1)]"
    by (simp add: post_api_users_def p1 getUserByUsername_def createUser_def Let_def
        newMemStorage_eq Map_values_def Map_set_def)
  have dup: "\<exists>u \<in> set (Map_values (users ?s)). username u = username sampleUser"
    unfolding us by (simp add: InsertUser.defs User.defs)
  have new: "\<not> (\<exists>u \<in> set (Map_values (users ?s)). username u = username (sampleUser\<lparr>username := ''Ada''\<rparr>))"
    unfolding us by (simp add: InsertUser.defs User.defs sampleUser_def)
  from post_users_unique_usernames [OF run p1] dup
  have a: "post_api_users sampleUserBody ?s = (Message 400 ''Username already exists'', ?s)"
    by (simp only: if_True)
  from post_users_unique_usernames [OF run p2] new
  have "\<exists>newUser s'.
      post_api_users (sampleUserBody\<lparr>body_username := Given ''Ada''\<rparr>) ?s = (Json 201 newUser, s') \<and>
      user_id newUser \<notin> set (Map_keys (users ?s))"
    by (simp only: if_False) blast
  with a show ?thesis by (rule conjI)
qed

section \<open>Defaults of the POST handlers\<close>

lemma post_api_jobs_needs_postedDate:
  "body_postedDate body = Missing \<Longrightarrow> post_api_jobs now body s = (ValidationError 400, s)"
  by (simp add: post_api_jobs_def insertJobSchema_parse_def required_def
      split: Option.bind_splits)

lemma post_api_applications_needs_status_and_date:
  "body_status body = Missing \<or> body_appliedDate body = Missing \<Longrightarrow>
   post_api_applications now body s = (ValidationError 400, s)"
  by (auto simp add: post_api_applications_def insertApplicationSchema_parse_def required_def
      split: Option.bind_splits)

lemma post_api_jobs_ignores_clock: "post_api_jobs now body s = post_api_jobs now' body s"
  by (simp add: post_api_jobs_def Date_truthy_def Let_def split: option.splits)

text \<open>
  Claim C7, at a request that omits the dates.  A POST /api/jobs body that carries every
  field but postedDate is answered with the 400 validation error and nothing is stored;
  so is a POST /api/applications body that carries every field but status and
  appliedDate.  The branches of the two handlers that would set the defaults come after
  the schema check and are never reached with a missing field.
\<close>

theorem post_without_defaults_is_rejected:
  "insertJobSchema_parse (sampleJobBody\<lparr>body_postedDate := Given 6000\<rparr>) \<noteq> None \<and>
   post_api_jobs 7000 sampleJobBody newMemStorage = (ValidationError 400, newMemStorage) \<and>
   insertApplicationSchema_parse
     (sampleApplicationBody\<lparr>body_status := Given ''reviewed'', body_appliedDate := Given 6000\<rparr>)
     \<noteq> None \<and>
   post_api_applications 7000 sampleApplicationBody newMemStorage =
     (ValidationError 400, newMemStorage) \<and>
   post_api_applications 7000 (sampleApplicationBody\<lparr>body_appliedDate := Given 6000\<rparr>)
     newMemStorage = (ValidationError 400, newMemStorage) \<and>
   post_api_applications 7000 (sampleApplicationBody\<lparr>body_status := Given ''reviewed''\<rparr>)
     newMemStorage = (ValidationError 400, newMemStorage)"
  by (simp add: post_api_jobs_def post_api_applications_def insertJobSchema_parse_def
      insertApplicationSchema_parse_def required_def nullable_def sampleJobBody_def
      sampleApplicationBody_def)

end
